theory Spec2Isabelle
  imports Main "HOL-Library.Word"
begin

section \<open>JavaScript strings\<close>

text \<open>
  A JavaScript string is a sequence of UTF-16 code units; \<open>length\<close> below is the
  \<^verbatim>\<open>.length\<close> of the source. ASCII literals of the source are written \<open>js ''...''\<close>.
\<close>

type_synonym jsstring = "16 word list"

definition js :: "string \<Rightarrow> jsstring" where
  "js s = map (\<lambda>c. of_nat (of_char c)) s"

definition is_high_surrogate :: "16 word \<Rightarrow> bool" where
  "is_high_surrogate c = (0xD800 \<le> c \<and> c \<le> 0xDBFF)"

definition is_low_surrogate :: "16 word \<Rightarrow> bool" where
  "is_low_surrogate c = (0xDC00 \<le> c \<and> c \<le> 0xDFFF)"

text \<open>
  \<^verbatim>\<open>for (const char of data)\<close> runs the string iterator: it yields one string per code
  point, so a high surrogate followed by a low surrogate is one \<^verbatim>\<open>char\<close> of length 2,
  and every other code unit is a \<^verbatim>\<open>char\<close> of length 1.
\<close>

fun string_iterator :: "jsstring \<Rightarrow> jsstring list" where
  "string_iterator [] = []"
| "string_iterator [c] = [[c]]"
| "string_iterator (c # d # cs) =
     (if is_high_surrogate c \<and> is_low_surrogate d
      then [c, d] # string_iterator cs
      else [c] # string_iterator (d # cs))"

text \<open>
  \<^verbatim>\<open>String.prototype.trim\<close> removes leading and trailing WhiteSpace and LineTerminator
  code points of ECMAScript: TAB, LF, VT, FF, CR, SP, NBSP, U+1680, U+2000..U+200A,
  LS, PS, U+202F, U+205F, U+3000 and the byte order mark.
\<close>

definition is_white_space :: "16 word \<Rightarrow> bool" where
  "is_white_space c =
     (c \<in> set [0x09, 0x0A, 0x0B, 0x0C, 0x0D, 0x20, 0xA0, 0x1680,
                0x2028, 0x2029, 0x202F, 0x205F, 0x3000, 0xFEFF]
      \<or> (0x2000 \<le> c \<and> c \<le> 0x200A))"

definition js_trim :: "jsstring \<Rightarrow> jsstring" where
  "js_trim s = rev (dropWhile is_white_space (rev (dropWhile is_white_space s)))"

text \<open>The decimal digits of a non-negative integer, as \<^verbatim>\<open>'warn-' + n\<close> appends them.\<close>

fun js_of_nat :: "nat \<Rightarrow> jsstring" where
  "js_of_nat n =
     (if n < 10 then [of_nat (48 + n)]
      else js_of_nat (n div 10) @ [of_nat (48 + n mod 10)])"

declare js_of_nat.simps [simp del]

text \<open>The number that a string of decimal digits denotes; it reads back what \<open>js_of_nat\<close> wrote.\<close>

fun decimal_value :: "jsstring \<Rightarrow> nat" where
  "decimal_value [] = 0"
| "decimal_value (d # ds) = (unat d - 48) * 10 ^ length ds + decimal_value ds"


section \<open>Shared types\<close>

datatype RiskLevel = low | medium | high | critical

record WarningRule =
  id' :: jsstring
  name :: jsstring
  pattern :: jsstring
  riskLevel :: RiskLevel
  description :: jsstring
  recommendation :: jsstring

record WarningResult =
  warningId :: jsstring
  ruleId :: jsstring
  riskLevel :: RiskLevel
  command :: jsstring
  description :: jsstring
  recommendation :: jsstring

record WarningsConfig =
  enabled :: bool
  disabledBuiltInRules :: "jsstring list"
  customRules :: "WarningRule list"

record WarningDisplayPayload =
  warningId :: jsstring
  command :: jsstring
  riskLevel :: RiskLevel
  description :: jsstring
  recommendation :: jsstring

record PendingCommand =
  warningId :: jsstring
  pendingData :: jsstring

section \<open>The warning engine\<close>

text \<open>
  \<^verbatim>\<open>new RegExp(pattern, flags)\<close> belongs to the JavaScript runtime, so the engine is
  modelled over any such constructor: it either throws a \<open>SyntaxError\<close> or returns a
  regular expression, which is represented by its \<^verbatim>\<open>test\<close> method (without the flags
  \<^verbatim>\<open>g\<close> and \<^verbatim>\<open>y\<close> the method has no state).
\<close>

datatype SyntaxError = SyntaxError

type_synonym RegExp = "jsstring \<Rightarrow> bool"

type_synonym RegExp_constructor = "jsstring \<Rightarrow> jsstring \<Rightarrow> SyntaxError + RegExp"

definition backslash :: char where
  "backslash = CHR 0x5C"

definition BUILT_IN_RULES :: "WarningRule list" where
  "BUILT_IN_RULES =
   [\<lparr>id' = js ''rm-rf'',
     name = js ''Recursive Force Delete'',
     pattern = js (''rm'' @ backslash # ''s+(-[a-zA-Z]*r[a-zA-Z]*f|f[a-zA-Z]*r)''),
     WarningRule.riskLevel = critical,
     WarningRule.description =
       js ''Recursively deletes files without confirmation. Can destroy important data.'',
     WarningRule.recommendation =
       js ''Double-check the target path. Consider using trash-cli instead.''\<rparr>,
    \<lparr>id' = js ''rm-root'',
     name = js ''Delete Root'',
     pattern = js (''rm'' @ backslash # ''s+.*'' @ backslash # ''s+/''),
     WarningRule.riskLevel = critical,
     WarningRule.description = js ''Targets the root filesystem for deletion.'',
     WarningRule.recommendation =
       js ''This will destroy your entire system. Almost certainly not what you want.''\<rparr>,
    \<lparr>id' = js ''sudo'',
     name = js ''Superuser Execution'',
     pattern = js (''^sudo'' @ backslash # ''s+''),
     WarningRule.riskLevel = medium,
     WarningRule.description = js ''Executes command with superuser privileges.'',
     WarningRule.recommendation =
       js ''Verify you trust this command before running with elevated permissions.''\<rparr>,
    \<lparr>id' = js ''git-reset-hard'',
     name = js ''Git Hard Reset'',
     pattern = js (''git'' @ backslash # ''s+reset'' @ backslash # ''s+--hard''),
     WarningRule.riskLevel = high,
     WarningRule.description = js ''Discards all uncommitted changes permanently.'',
     WarningRule.recommendation =
       js ''Consider git stash first to preserve your changes.''\<rparr>,
    \<lparr>id' = js ''git-force-push'',
     name = js ''Git Force Push'',
     pattern = js (''git'' @ backslash # ''s+push'' @ backslash # ''s+.*--force''),
     WarningRule.riskLevel = high,
     WarningRule.description =
       js ''Overwrites remote history. Can cause data loss for collaborators.'',
     WarningRule.recommendation =
       js ''Use --force-with-lease for a safer alternative.''\<rparr>,
    \<lparr>id' = js ''chmod-777'',
     name = js ''Open Permissions'',
     pattern = js (''chmod'' @ backslash # ''s+777''),
     WarningRule.riskLevel = high,
     WarningRule.description =
       js ''Sets file permissions to fully open (read/write/execute for everyone).'',
     WarningRule.recommendation =
       js ''Use more restrictive permissions like 755 or 644.''\<rparr>,
    \<lparr>id' = js ''dd'',
     name = js ''Disk Dump'',
     pattern = js (''^dd'' @ backslash # ''s+''),
     WarningRule.riskLevel = critical,
     WarningRule.description =
       js ''Low-level disk copy tool. Can overwrite disk partitions.'',
     WarningRule.recommendation =
       js ''Verify the of= (output file) parameter extremely carefully.''\<rparr>,
    \<lparr>id' = js ''mkfs'',
     name = js ''Format Filesystem'',
     pattern = js ''mkfs'',
     WarningRule.riskLevel = critical,
     WarningRule.description =
       js ''Formats a filesystem partition, destroying all data on it.'',
     WarningRule.recommendation =
       js ''Triple-check the target device before executing.''\<rparr>,
    \<lparr>id' = js ''git-clean-fd'',
     name = js ''Git Clean Force'',
     pattern = js (''git'' @ backslash # ''s+clean'' @ backslash # ''s+.*-[a-zA-Z]*f''),
     WarningRule.riskLevel = high,
     WarningRule.description =
       js ''Permanently removes untracked files from the working directory.'',
     WarningRule.recommendation =
       js ''Run git clean -n first for a dry-run preview.''\<rparr>,
    \<lparr>id' = js ''curl-pipe-sh'',
     name = js ''Pipe to Shell'',
     pattern = js (''curl'' @ backslash # ''s+.*'' @ backslash # ''|.*sh''),
     WarningRule.riskLevel = high,
     WarningRule.description = js ''Downloads and immediately executes a remote script.'',
     WarningRule.recommendation =
       js ''Download the script first, review it, then execute.''\<rparr>]"

record CompiledRule =
  rule :: WarningRule
  regex :: RegExp

record WarningEngine =
  enabled :: bool
  compiledRules :: "CompiledRule list"
  allRules :: "WarningRule list"

text \<open>
  \<open>compileRules\<close>: the loop over \<open>allRules\<close>; the \<^verbatim>\<open>catch\<close> branch logs the error and
  pushes nothing.
\<close>

fun compileRules_loop ::
  "RegExp_constructor \<Rightarrow> WarningRule list \<Rightarrow> CompiledRule list \<Rightarrow> CompiledRule list" where
  "compileRules_loop new_RegExp [] compiled = compiled"
| "compileRules_loop new_RegExp (r # rs) compiled =
     (case new_RegExp (pattern r) (js ''i'') of
        Inr re \<Rightarrow> compileRules_loop new_RegExp rs (compiled @ [\<lparr>rule = r, regex = re\<rparr>])
      | Inl err \<Rightarrow> compileRules_loop new_RegExp rs compiled)"

definition compileRules :: "RegExp_constructor \<Rightarrow> WarningEngine \<Rightarrow> WarningEngine" where
  "compileRules new_RegExp this =
     this\<lparr>compiledRules := compileRules_loop new_RegExp (allRules this) []\<rparr>"

text \<open>The two loops of the constructor, pushing onto \<open>allRules\<close>.\<close>

fun push_built_in :: "jsstring list \<Rightarrow> WarningRule list \<Rightarrow> WarningRule list \<Rightarrow> WarningRule list" where
  "push_built_in disabledSet [] rules = rules"
| "push_built_in disabledSet (r # rs) rules =
     (if id' r \<notin> set disabledSet
      then push_built_in disabledSet rs (rules @ [r])
      else push_built_in disabledSet rs rules)"

fun push_custom :: "WarningRule list \<Rightarrow> WarningRule list \<Rightarrow> WarningRule list" where
  "push_custom [] rules = rules"
| "push_custom (customRule # rs) rules = push_custom rs (rules @ [customRule])"

definition new_WarningEngine :: "RegExp_constructor \<Rightarrow> WarningsConfig \<Rightarrow> WarningEngine" where
  "new_WarningEngine new_RegExp config =
     compileRules new_RegExp
       \<lparr>enabled = WarningsConfig.enabled config,
        compiledRules = [],
        allRules =
          push_custom (customRules config)
            (push_built_in (disabledBuiltInRules config) BUILT_IN_RULES [])\<rparr>"

text \<open>
  \<open>evaluate\<close>; \<open>now\<close> is the value that \<^verbatim>\<open>Date.now()\<close> returns if the loop reaches it.
\<close>

fun evaluate_loop :: "CompiledRule list \<Rightarrow> nat \<Rightarrow> jsstring \<Rightarrow> WarningResult option" where
  "evaluate_loop [] now trimmed = None"
| "evaluate_loop (cr # crs) now trimmed =
     (if regex cr trimmed
      then Some \<lparr>WarningResult.warningId = js ''warn-'' @ js_of_nat now,
                 ruleId = id' (rule cr),
                 WarningResult.riskLevel = WarningRule.riskLevel (rule cr),
                 WarningResult.command = trimmed,
                 WarningResult.description = WarningRule.description (rule cr),
                 WarningResult.recommendation = WarningRule.recommendation (rule cr)\<rparr>
      else evaluate_loop crs now trimmed)"

definition evaluate :: "WarningEngine \<Rightarrow> nat \<Rightarrow> jsstring \<Rightarrow> WarningResult option" where
  "evaluate this now command' =
     (if \<not> enabled this then None
      else let trimmed = js_trim command' in
        if length trimmed = 0 then None
        else evaluate_loop (compiledRules this) now trimmed)"

definition addRule :: "RegExp_constructor \<Rightarrow> WarningEngine \<Rightarrow> WarningRule \<Rightarrow> WarningEngine" where
  "addRule new_RegExp this r = compileRules new_RegExp (this\<lparr>allRules := allRules this @ [r]\<rparr>)"

definition setEnabled :: "WarningEngine \<Rightarrow> bool \<Rightarrow> WarningEngine" where
  "setEnabled this flag = this\<lparr>enabled := flag\<rparr>"

section \<open>The warning pipeline of the IPC handlers\<close>

text \<open>
  The state that \<open>registerAllHandlers\<close> closes over, together with what the handlers
  touch of their collaborators:
  \<^item> \<open>lineBuffer\<close>, \<open>pendingCommands\<close>, \<open>inEscapeSequence\<close>: the three variables of the
    closure;
  \<^item> \<open>ptyProcess\<close>: whether \<^verbatim>\<open>shellManager.ptyProcess\<close> is non-null, and \<open>ptyWritten\<close>:
    the arguments of \<^verbatim>\<open>ptyProcess.write\<close>, in call order (the bytes that reached the shell);
  \<^item> \<open>webContents\<close>: whether \<open>getWebContents()\<close> finds a window, and \<open>warningTriggered\<close>:
    the payloads sent on the channel \<^verbatim>\<open>warning:triggered\<close>, in order;
  \<^item> \<open>dateNowCalls\<close>: how many times \<^verbatim>\<open>Date.now()\<close> has been read; the clock is a
    function from that count to the value read.
  Calls of the logger are left out: they change none of this.
\<close>

record ipc_state =
  lineBuffer :: jsstring
  pendingCommands :: "jsstring \<rightharpoonup> PendingCommand"
  inEscapeSequence :: bool
  ptyProcess :: bool
  ptyWritten :: "jsstring list"
  webContents :: bool
  warningTriggered :: "WarningDisplayPayload list"
  dateNowCalls :: nat

definition MAX_LINE_BUFFER_LENGTH :: nat where
  "MAX_LINE_BUFFER_LENGTH = 65536"

definition ShellManager_write :: "ipc_state \<Rightarrow> jsstring \<Rightarrow> ipc_state" where
  "ShellManager_write s data =
     (if ptyProcess s then s\<lparr>ptyWritten := ptyWritten s @ [data]\<rparr> else s)"

definition ShellManager_isAlive :: "ipc_state \<Rightarrow> bool" where
  "ShellManager_isAlive s = ptyProcess s"

text \<open>\<^verbatim>\<open>/[A-Za-z~]/.test(char)\<close>: some code unit of \<open>char\<close> is an ASCII letter or a tilde.\<close>

definition is_letter_or_tilde :: "16 word \<Rightarrow> bool" where
  "is_letter_or_tilde c = ((0x41 \<le> c \<and> c \<le> 0x5A) \<or> (0x61 \<le> c \<and> c \<le> 0x7A) \<or> c = 0x7E)"

text \<open>\<^verbatim>\<open>char.charCodeAt(0) < 0x20\<close>; on the empty string \<open>charCodeAt\<close> is NaN and the test fails.\<close>

definition charCodeAt0_below_0x20 :: "jsstring \<Rightarrow> bool" where
  "charCodeAt0_below_0x20 char = (case char of [] \<Rightarrow> False | c # _ \<Rightarrow> c < 0x20)"

definition display_payload :: "WarningResult \<Rightarrow> WarningDisplayPayload" where
  "display_payload warningResult =
     \<lparr>WarningDisplayPayload.warningId = WarningResult.warningId warningResult,
      WarningDisplayPayload.command = WarningResult.command warningResult,
      WarningDisplayPayload.riskLevel = WarningResult.riskLevel warningResult,
      WarningDisplayPayload.description = WarningResult.description warningResult,
      WarningDisplayPayload.recommendation = WarningResult.recommendation warningResult\<rparr>"

text \<open>The body of the loop \<^verbatim>\<open>for (const char of data)\<close> of the \<^verbatim>\<open>shell:write\<close> handler.\<close>

definition handle_char ::
  "WarningEngine \<Rightarrow> (nat \<Rightarrow> nat) \<Rightarrow> ipc_state \<Rightarrow> jsstring \<Rightarrow> ipc_state" where
  "handle_char warningEngine Date_now s char =
     (if char = [0x1B] then
        ShellManager_write (s\<lparr>inEscapeSequence := True\<rparr>) char
      else if inEscapeSequence s then
        (let s1 = ShellManager_write s char in
         if list_ex is_letter_or_tilde char then s1\<lparr>inEscapeSequence := False\<rparr> else s1)
      else if char = [0x7F] \<or> char = [0x08] then
        ShellManager_write (s\<lparr>lineBuffer := butlast (lineBuffer s)\<rparr>) char
      else if charCodeAt0_below_0x20 char \<and> char \<noteq> [0x0D] \<and> char \<noteq> [0x0A] then
        ShellManager_write (s\<lparr>lineBuffer := []\<rparr>) char
      else if char = [0x0D] \<or> char = [0x0A] then
        (let command' = js_trim (lineBuffer s) in
         if length command' = 0 then
           (ShellManager_write s char)\<lparr>lineBuffer := []\<rparr>
         else
           (case evaluate warningEngine (Date_now (dateNowCalls s)) command' of
              None \<Rightarrow> (ShellManager_write s char)\<lparr>lineBuffer := []\<rparr>
            | Some warningResult \<Rightarrow>
                (let s1 = s\<lparr>dateNowCalls := Suc (dateNowCalls s),
                             pendingCommands := (pendingCommands s)
                               (WarningResult.warningId warningResult \<mapsto>
                                  \<lparr>PendingCommand.warningId = WarningResult.warningId warningResult,
                                   pendingData = [0x0D]\<rparr>)\<rparr>
                 in if webContents s1
                    then s1\<lparr>warningTriggered :=
                              warningTriggered s1 @ [display_payload warningResult]\<rparr>
                    else s1)))
      else
        (let s1 = (if length (lineBuffer s) < MAX_LINE_BUFFER_LENGTH
                   then s\<lparr>lineBuffer := lineBuffer s @ char\<rparr> else s)
         in ShellManager_write s1 char))"

definition write_loop ::
  "WarningEngine \<Rightarrow> (nat \<Rightarrow> nat) \<Rightarrow> ipc_state \<Rightarrow> jsstring list \<Rightarrow> ipc_state" where
  "write_loop warningEngine Date_now s chars = foldl (handle_char warningEngine Date_now) s chars"

definition SHELL_WRITE ::
  "WarningEngine \<Rightarrow> (nat \<Rightarrow> nat) \<Rightarrow> ipc_state \<Rightarrow> jsstring \<Rightarrow> ipc_state" where
  "SHELL_WRITE warningEngine Date_now s data =
     (if \<not> ShellManager_isAlive s then s
      else write_loop warningEngine Date_now s (string_iterator data))"

definition WARNING_CONFIRM :: "ipc_state \<Rightarrow> jsstring \<Rightarrow> ipc_state" where
  "WARNING_CONFIRM s warningId' =
     (case pendingCommands s warningId' of
        Some pending \<Rightarrow>
          (ShellManager_write s (pendingData pending))
            \<lparr>pendingCommands := (pendingCommands s)(warningId' := None), lineBuffer := []\<rparr>
      | None \<Rightarrow> s)"

definition WARNING_CANCEL :: "ipc_state \<Rightarrow> jsstring \<Rightarrow> ipc_state" where
  "WARNING_CANCEL s warningId' =
     (case pendingCommands s warningId' of
        Some pending \<Rightarrow>
          ShellManager_write
            (s\<lparr>pendingCommands := (pendingCommands s)(warningId' := None), lineBuffer := []\<rparr>)
            [0x15]
      | None \<Rightarrow> s)"

text \<open>The callback that the \<^verbatim>\<open>shell:spawn\<close> handler registers with \<^verbatim>\<open>shellManager.onExit\<close>.\<close>

definition shell_onExit :: "ipc_state \<Rightarrow> ipc_state" where
  "shell_onExit s =
     s\<lparr>lineBuffer := [], inEscapeSequence := False, pendingCommands := Map.empty\<rparr>"

section \<open>The warning overlay of the renderer\<close>

text \<open>
  The module state of \<^verbatim>\<open>warning-overlay.ts\<close> that decides what is sent back to the main
  process: \<open>currentResolve\<close> (whether it is non-null, that is, whether a warning is on
  display), \<open>currentWarningId\<close>, and \<open>apiCalls\<close>, the calls made on
  \<^verbatim>\<open>window.api.warning\<close> in order. The DOM, the promise and the event bus are left out.
  \<open>overlay_show\<close> is the function \<^verbatim>\<open>show\<close>, which the renderer calls with every payload
  that arrives on \<^verbatim>\<open>warning:triggered\<close>; \<open>overlay_hide\<close> is \<^verbatim>\<open>hide\<close>. The guard
  \<^verbatim>\<open>if (warningId)\<close> of \<open>dismissWithAction\<close> fails on null and on the empty string.
\<close>

datatype action = confirm | cancel

datatype warning_call = confirmExecution jsstring | cancelExecution jsstring

record overlay_state =
  currentResolve :: bool
  currentWarningId :: "jsstring option"
  apiCalls :: "warning_call list"

definition overlay_hide :: "overlay_state \<Rightarrow> overlay_state" where
  "overlay_hide ov = ov\<lparr>currentWarningId := None\<rparr>"

definition dismissWithAction :: "overlay_state \<Rightarrow> action \<Rightarrow> overlay_state" where
  "dismissWithAction ov act =
     (let warningId' = currentWarningId ov;
          ov1 = ov\<lparr>currentResolve := False, currentWarningId := None\<rparr>;
          ov2 = (case warningId' of
                   None \<Rightarrow> ov1
                 | Some w \<Rightarrow>
                     if w = [] then ov1
                     else if act = confirm
                       then ov1\<lparr>apiCalls := apiCalls ov1 @ [confirmExecution w]\<rparr>
                       else ov1\<lparr>apiCalls := apiCalls ov1 @ [cancelExecution w]\<rparr>)
      in overlay_hide ov2)"

definition overlay_show :: "overlay_state \<Rightarrow> WarningDisplayPayload \<Rightarrow> overlay_state" where
  "overlay_show ov warning =
     (let ov1 = (if currentResolve ov then dismissWithAction ov cancel else ov)
      in ov1\<lparr>currentResolve := True,
              currentWarningId := Some (WarningDisplayPayload.warningId warning)\<rparr>)"

definition overlay_init :: overlay_state where
  "overlay_init = \<lparr>currentResolve = False, currentWarningId = None, apiCalls = []\<rparr>"

text \<open>
  The preload script sends \<open>confirmExecution\<close> on \<^verbatim>\<open>warning:confirm\<close> and \<open>cancelExecution\<close>
  on \<^verbatim>\<open>warning:cancel\<close>, where the handlers of the main process receive them.
\<close>

definition main_receives :: "ipc_state \<Rightarrow> warning_call \<Rightarrow> ipc_state" where
  "main_receives s call =
     (case call of
        confirmExecution w \<Rightarrow> WARNING_CONFIRM s w
      | cancelExecution w \<Rightarrow> WARNING_CANCEL s w)"

section \<open>A regular-expression constructor for running examples\<close>

text \<open>
  The theorems below hold for every \<open>RegExp_constructor\<close>. To run the engine on concrete
  input, this small one stands in for the runtime's: the pattern \<^verbatim>\<open>(\<close> is a syntax error
  (an unterminated group), a pattern of ASCII letters only is searched for as literal
  text, without regard to case under the flag \<^verbatim>\<open>i\<close>, and any other pattern is taken to
  match nothing.
\<close>

definition is_ascii_letter :: "16 word \<Rightarrow> bool" where
  "is_ascii_letter c = ((0x41 \<le> c \<and> c \<le> 0x5A) \<or> (0x61 \<le> c \<and> c \<le> 0x7A))"

definition to_lower :: "16 word \<Rightarrow> 16 word" where
  "to_lower c = (if 0x41 \<le> c \<and> c \<le> 0x5A then c + 0x20 else c)"

fun starts_with :: "jsstring \<Rightarrow> jsstring \<Rightarrow> bool" where
  "starts_with [] s = True"
| "starts_with (p # ps) [] = False"
| "starts_with (p # ps) (c # cs) = (p = c \<and> starts_with ps cs)"

fun contains :: "jsstring \<Rightarrow> jsstring \<Rightarrow> bool" where
  "contains p [] = starts_with p []"
| "contains p (c # cs) = (starts_with p (c # cs) \<or> contains p cs)"

definition example_RegExp :: RegExp_constructor where
  "example_RegExp pat flags =
     (if pat = js ''('' then Inl SyntaxError
      else if list_all is_ascii_letter pat then
        (if 0x69 \<in> set flags
         then Inr (\<lambda>s. contains (map to_lower pat) (map to_lower s))
         else Inr (\<lambda>s. contains pat s))
      else Inr (\<lambda>s. False))"

text \<open>\<open>DEFAULT_CONFIG.warnings\<close> of \<^verbatim>\<open>constants.ts\<close>, and the engine built from it.\<close>

definition default_warnings :: WarningsConfig where
  "default_warnings = \<lparr>WarningsConfig.enabled = True, disabledBuiltInRules = [], customRules = []\<rparr>"

definition example_engine :: WarningEngine where
  "example_engine = new_WarningEngine example_RegExp default_warnings"

text \<open>A running shell with a window, nothing typed yet.\<close>

definition fresh_state :: ipc_state where
  "fresh_state =
     \<lparr>lineBuffer = [], pendingCommands = Map.empty, inEscapeSequence = False,
      ptyProcess = True, ptyWritten = [], webContents = True, warningTriggered = [],
      dateNowCalls = 0\<rparr>"

text \<open>Two custom rules, the first with a pattern that does not compile.\<close>

definition broken_rule :: WarningRule where
  "broken_rule =
     \<lparr>id' = js ''custom-broken'', name = js ''Broken'', pattern = js ''('',
      WarningRule.riskLevel = high, WarningRule.description = js ''Never compiles.'',
      WarningRule.recommendation = js ''Fix the pattern.''\<rparr>"

definition format_rule :: WarningRule where
  "format_rule =
     \<lparr>id' = js ''custom-format'', name = js ''Format'', pattern = js ''MKFS'',
      WarningRule.riskLevel = low, WarningRule.description = js ''Formats a partition.'',
      WarningRule.recommendation = js ''Check the device.''\<rparr>"

definition example_config :: WarningsConfig where
  "example_config =
     \<lparr>WarningsConfig.enabled = True, disabledBuiltInRules = [js ''mkfs''],
      customRules = [broken_rule, format_rule]\<rparr>"

text \<open>The built-in rules \<^verbatim>\<open>sudo\<close> and \<^verbatim>\<open>mkfs\<close> of the catalog.\<close>

definition sudo_rule :: WarningRule where
  "sudo_rule = BUILT_IN_RULES ! 2"

definition mkfs_rule :: WarningRule where
  "mkfs_rule = BUILT_IN_RULES ! 7"

text \<open>
  An engine state put together by hand, with three compiled rules: the second and the
  third both accept a candidate that contains \<^verbatim>\<open>mkfs\<close>.
\<close>

definition hand_engine :: WarningEngine where
  "hand_engine =
     \<lparr>enabled = True,
      compiledRules =
        [\<lparr>rule = sudo_rule, regex = starts_with (js ''sudo '')\<rparr>,
         \<lparr>rule = mkfs_rule, regex = contains (js ''mkfs'')\<rparr>,
         \<lparr>rule = format_rule, regex = contains (js ''mkfs'')\<rparr>],
      allRules = [sudo_rule, mkfs_rule, format_rule]\<rparr>"

text \<open>
  Two clocks for \<^verbatim>\<open>Date.now()\<close>: one that returns the same millisecond at every read,
  and one that advances by a millisecond at every read.
\<close>

definition frozen_clock :: "nat \<Rightarrow> nat" where
  "frozen_clock k = 1707984000000"

definition ticking_clock :: "nat \<Rightarrow> nat" where
  "ticking_clock k = 1707984000000 + k"

text \<open>
  Enter pressed twice on the line \<^verbatim>\<open>mkfs\<close>, in two calls of the \<^verbatim>\<open>shell:write\<close> handler a
  millisecond apart.
\<close>

definition after_first_enter :: ipc_state where
  "after_first_enter = SHELL_WRITE example_engine ticking_clock fresh_state (js ''mkfs'' @ [0x0D])"

definition after_second_enter :: ipc_state where
  "after_second_enter = SHELL_WRITE example_engine ticking_clock after_first_enter [0x0D]"

text \<open>
  A code unit that the loop treats as ordinary text when it is not inside an escape
  sequence: not a control character, not DEL, and not half of a surrogate pair.
\<close>

definition is_plain :: "16 word \<Rightarrow> bool" where
  "is_plain c = (0x20 \<le> c \<and> c \<noteq> 0x7F \<and> \<not> is_high_surrogate c \<and> \<not> is_low_surrogate c)"

section \<open>The rule engine as the specification words it\<close>

text \<open>
  These definitions follow the specification, not the source: the rule set is the
  built-in catalog without the disabled ids followed by the custom rules; a rule
  matches a candidate when its pattern compiles under the flag \<^verbatim>\<open>i\<close> and the compiled
  expression accepts the candidate; evaluation returns the result of the first
  matching rule of the rule set.
\<close>

definition compiles :: "RegExp_constructor \<Rightarrow> WarningRule \<Rightarrow> bool" where
  "compiles new_RegExp r = (case new_RegExp (pattern r) (js ''i'') of Inl err \<Rightarrow> False | Inr re \<Rightarrow> True)"

definition spec_rule_set :: "WarningsConfig \<Rightarrow> WarningRule list" where
  "spec_rule_set config =
     filter (\<lambda>r. id' r \<notin> set (disabledBuiltInRules config)) BUILT_IN_RULES @ customRules config"

definition spec_matches :: "RegExp_constructor \<Rightarrow> jsstring \<Rightarrow> WarningRule \<Rightarrow> bool" where
  "spec_matches new_RegExp candidate r =
     (case new_RegExp (pattern r) (js ''i'') of Inl err \<Rightarrow> False | Inr re \<Rightarrow> re candidate)"

definition spec_result :: "nat \<Rightarrow> jsstring \<Rightarrow> WarningRule \<Rightarrow> WarningResult" where
  "spec_result now candidate r =
     \<lparr>WarningResult.warningId = js ''warn-'' @ js_of_nat now,
      ruleId = id' r,
      WarningResult.riskLevel = WarningRule.riskLevel r,
      WarningResult.command = candidate,
      WarningResult.description = WarningRule.description r,
      WarningResult.recommendation = WarningRule.recommendation r\<rparr>"

definition spec_evaluate ::
  "RegExp_constructor \<Rightarrow> WarningsConfig \<Rightarrow> nat \<Rightarrow> jsstring \<Rightarrow> WarningResult option" where
  "spec_evaluate new_RegExp config now candidate =
     (if \<not> WarningsConfig.enabled config \<or> js_trim candidate = [] then None
      else map_option (spec_result now (js_trim candidate))
             (find (spec_matches new_RegExp (js_trim candidate)) (spec_rule_set config)))"

section \<open>Properties of the rule engine\<close>

lemma push_built_in_eq:
  "push_built_in d rs acc = acc @ filter (\<lambda>r. id' r \<notin> set d) rs"
  by (induction rs arbitrary: acc) auto

lemma push_custom_eq: "push_custom rs acc = acc @ rs"
  by (induction rs arbitrary: acc) auto

lemma allRules_new: "allRules (new_WarningEngine R config) = spec_rule_set config"
  by (simp add: new_WarningEngine_def compileRules_def spec_rule_set_def push_built_in_eq push_custom_eq)

lemma enabled_new: "enabled (new_WarningEngine R config) = WarningsConfig.enabled config"
  by (simp add: new_WarningEngine_def compileRules_def)

lemma compiledRules_new:
  "compiledRules (new_WarningEngine R config) = compileRules_loop R (spec_rule_set config) []"
  by (simp add: new_WarningEngine_def compileRules_def spec_rule_set_def push_built_in_eq push_custom_eq)

lemma map_rule_compileRules_loop:
  "map rule (compileRules_loop R rs acc) = map rule acc @ filter (compiles R) rs"
  by (induction rs arbitrary: acc) (auto simp: compiles_def split: sum.splits)

lemma compileRules_loop_eq:
  "compileRules_loop R rs acc =
     acc @ concat (map (\<lambda>r. case R (pattern r) (js ''i'') of
                               Inl err \<Rightarrow> [] | Inr re \<Rightarrow> [\<lparr>rule = r, regex = re\<rparr>]) rs)"
  by (induction rs arbitrary: acc) (auto split: sum.splits)

lemma regex_compileRules_loop:
  "cr \<in> set (compileRules_loop R rs []) \<Longrightarrow> R (pattern (rule cr)) (js ''i'') = Inr (regex cr)"
  by (auto simp: compileRules_loop_eq split: sum.splits)

lemma evaluate_loop_Cons:
  "evaluate_loop (cr # crs) now t =
     (if regex cr t then Some (spec_result now t (rule cr)) else evaluate_loop crs now t)"
  by (simp add: spec_result_def)

lemma evaluate_loop_compiled:
  "evaluate_loop
     (concat (map (\<lambda>r. case R (pattern r) (js ''i'') of
                           Inl err \<Rightarrow> [] | Inr re \<Rightarrow> [\<lparr>rule = r, regex = re\<rparr>]) rs)) now t
   = map_option (spec_result now t) (find (spec_matches R t) rs)"
proof (induction rs)
  case Nil
  show ?case by simp
next
  case (Cons r rs)
  show ?case
  proof (cases "R (pattern r) (js ''i'')")
    case (Inl err)
    then have "\<not> spec_matches R t r" by (simp add: spec_matches_def)
    with Inl Cons.IH show ?thesis by simp
  next
    case (Inr re)
    then have "spec_matches R t r = re t" by (simp add: spec_matches_def)
    with Inr Cons.IH show ?thesis by (simp add: evaluate_loop_Cons del: evaluate_loop.simps)
  qed
qed

lemma evaluate_loop_first:
  "\<forall>p \<in> set pre. \<not> regex p t \<Longrightarrow> regex cr t \<Longrightarrow>
     evaluate_loop (pre @ cr # post) now t = Some (spec_result now t (rule cr))"
  by (induction pre) (simp_all add: evaluate_loop_Cons del: evaluate_loop.simps)

lemma evaluate_new:
  "evaluate (new_WarningEngine R config) now candidate = spec_evaluate R config now candidate"
  by (simp add: evaluate_def spec_evaluate_def enabled_new compiledRules_new
      compileRules_loop_eq evaluate_loop_compiled Let_def)

lemmas example_defs = example_config_def broken_rule_def format_rule_def default_warnings_def
  BUILT_IN_RULES_def example_RegExp_def js_def backslash_def is_ascii_letter_def to_lower_def
  js_trim_def is_white_space_def

text \<open>
  C6. \<open>evaluate\<close> returns none when the engine is disabled or the trimmed candidate is
  empty. On an engine built by the constructor it is the first-match search of the
  specification: the trimmed candidate is tested against the rules whose pattern
  compiled with the flag \<^verbatim>\<open>i\<close>, built-ins in catalog order without the disabled ones,
  then the custom rules in configuration order, and the result of the first match is
  returned, none if there is no match. Whatever rules follow the first match, the
  result is the same.
\<close>

theorem evaluate_first_match:
  "(\<not> enabled this \<or> js_trim candidate = [] \<longrightarrow> evaluate this now candidate = None)
   \<and> evaluate (new_WarningEngine new_RegExp config) now candidate
       = spec_evaluate new_RegExp config now candidate
   \<and> (enabled eng \<and> js_trim candidate \<noteq> [] \<and> compiledRules eng = pre @ cr # post
        \<and> (\<forall>p \<in> set pre. \<not> regex p (js_trim candidate)) \<and> regex cr (js_trim candidate)
      \<longrightarrow> evaluate eng now candidate = Some (spec_result now (js_trim candidate) (rule cr)))"
proof (intro conjI impI)
  assume "\<not> enabled this \<or> js_trim candidate = []"
  then show "evaluate this now candidate = None"
    by (auto simp: evaluate_def)
next
  show "evaluate (new_WarningEngine new_RegExp config) now candidate
          = spec_evaluate new_RegExp config now candidate"
    by (rule evaluate_new)
next
  assume "enabled eng \<and> js_trim candidate \<noteq> [] \<and> compiledRules eng = pre @ cr # post
        \<and> (\<forall>p \<in> set pre. \<not> regex p (js_trim candidate)) \<and> regex cr (js_trim candidate)"
  then show "evaluate eng now candidate = Some (spec_result now (js_trim candidate) (rule cr))"
    by (simp add: evaluate_def evaluate_loop_first)
qed

theorem evaluate_first_match_witness:
  "\<not> enabled (setEnabled example_engine False)
   \<and> evaluate (setEnabled example_engine False) 1707984000000 (js '' mkfs /dev/sda '') = None
   \<and> evaluate (new_WarningEngine example_RegExp example_config) 1707984000000
         (js '' mkfs /dev/sda '')
       = Some \<lparr>WarningResult.warningId = js ''warn-1707984000000'',
                ruleId = js ''custom-format'',
                WarningResult.riskLevel = low,
                WarningResult.command = js ''mkfs /dev/sda'',
                WarningResult.description = js ''Formats a partition.'',
                WarningResult.recommendation = js ''Check the device.''\<rparr>
   \<and> enabled hand_engine
   \<and> compiledRules hand_engine
       = [\<lparr>rule = sudo_rule, regex = starts_with (js ''sudo '')\<rparr>]
         @ \<lparr>rule = mkfs_rule, regex = contains (js ''mkfs'')\<rparr>
         # [\<lparr>rule = format_rule, regex = contains (js ''mkfs'')\<rparr>]
   \<and> \<not> starts_with (js ''sudo '') (js ''mkfs /dev/sda'')
   \<and> contains (js ''mkfs'') (js ''mkfs /dev/sda'')
   \<and> evaluate hand_engine 1707984000000 (js '' mkfs /dev/sda '')
       = Some (spec_result 1707984000000 (js ''mkfs /dev/sda'') mkfs_rule)"
  using evaluate_first_match [of "setEnabled example_engine False" "js '' mkfs /dev/sda ''"
      1707984000000 example_RegExp example_config hand_engine
      "[\<lparr>rule = sudo_rule, regex = starts_with (js ''sudo '')\<rparr>]"
      "\<lparr>rule = mkfs_rule, regex = contains (js ''mkfs'')\<rparr>"
      "[\<lparr>rule = format_rule, regex = contains (js ''mkfs'')\<rparr>]"]
  by (simp add: setEnabled_def hand_engine_def spec_evaluate_def spec_rule_set_def
      spec_matches_def spec_result_def js_of_nat.simps example_defs)

text \<open>
  C7. A rule whose pattern fails to compile is skipped: after construction and after
  \<open>addRule\<close> the compiled rules are exactly the rules whose pattern compiles, in order,
  each with the expression compiled from its own pattern; and a result of \<open>evaluate\<close>
  always comes from a rule that compiled and matched. Neither function has an error
  result: the \<open>SyntaxError\<close> is consumed inside \<open>compileRules_loop\<close>.
\<close>

theorem compile_failures_skipped:
  "map rule (compiledRules (new_WarningEngine new_RegExp config))
     = filter (compiles new_RegExp) (allRules (new_WarningEngine new_RegExp config))
   \<and> allRules (addRule new_RegExp this r) = allRules this @ [r]
   \<and> map rule (compiledRules (addRule new_RegExp this r))
     = filter (compiles new_RegExp) (allRules this @ [r])
   \<and> (\<forall>e \<in> {new_WarningEngine new_RegExp config, addRule new_RegExp this r}.
        (\<forall>cr \<in> set (compiledRules e). new_RegExp (pattern (rule cr)) (js ''i'') = Inr (regex cr))
        \<and> (\<forall>res. evaluate e now candidate = Some res \<longrightarrow>
              (\<exists>q \<in> set (allRules e). compiles new_RegExp q
                  \<and> spec_matches new_RegExp (js_trim candidate) q
                  \<and> res = spec_result now (js_trim candidate) q)))"
proof -
  have ev: "\<exists>q \<in> set (allRules e). compiles new_RegExp q
                  \<and> spec_matches new_RegExp (js_trim candidate) q
                  \<and> res = spec_result now (js_trim candidate) q"
    if c: "compiledRules e = compileRules_loop new_RegExp (allRules e) []"
      and r: "evaluate e now candidate = Some res" for e res
  proof -
    from r have "evaluate_loop (compiledRules e) now (js_trim candidate) = Some res"
      by (simp add: evaluate_def Let_def split: if_splits)
    then have "map_option (spec_result now (js_trim candidate))
        (find (spec_matches new_RegExp (js_trim candidate)) (allRules e)) = Some res"
      by (simp add: c compileRules_loop_eq evaluate_loop_compiled)
    then obtain q where q: "find (spec_matches new_RegExp (js_trim candidate)) (allRules e) = Some q"
      and res: "res = spec_result now (js_trim candidate) q"
      by auto
    from q have "q \<in> set (allRules e)" and m: "spec_matches new_RegExp (js_trim candidate) q"
      by (auto simp: find_Some_iff)
    moreover from m have "compiles new_RegExp q"
      by (simp add: spec_matches_def compiles_def split: sum.splits)
    ultimately show ?thesis using res by blast
  qed
  have c_new: "compiledRules (new_WarningEngine new_RegExp config)
      = compileRules_loop new_RegExp (allRules (new_WarningEngine new_RegExp config)) []"
    by (simp add: compiledRules_new allRules_new)
  have c_add: "compiledRules (addRule new_RegExp this r)
      = compileRules_loop new_RegExp (allRules (addRule new_RegExp this r)) []"
    by (simp add: addRule_def compileRules_def)
  have a_add: "allRules (addRule new_RegExp this r) = allRules this @ [r]"
    by (simp add: addRule_def compileRules_def)
  show ?thesis
    using ev [OF c_new] ev [OF c_add] regex_compileRules_loop [of _ new_RegExp]
    by (simp add: c_new c_add a_add map_rule_compileRules_loop del: filter_append)
qed

text \<open>
  For example: the rule with the pattern \<^verbatim>\<open>(\<close> is in \<open>allRules\<close> but is not compiled,
  and the custom rule after it still matches.
\<close>

theorem compile_failures_skipped_witness:
  "\<not> compiles example_RegExp broken_rule
   \<and> broken_rule \<in> set (allRules (new_WarningEngine example_RegExp example_config))
   \<and> map id' (map rule (compiledRules (new_WarningEngine example_RegExp example_config)))
       = map js [''rm-rf'', ''rm-root'', ''sudo'', ''git-reset-hard'', ''git-force-push'',
                 ''chmod-777'', ''dd'', ''git-clean-fd'', ''curl-pipe-sh'', ''custom-format'']
   \<and> map id' (map rule (compiledRules (addRule example_RegExp example_engine broken_rule)))
       = map js [''rm-rf'', ''rm-root'', ''sudo'', ''git-reset-hard'', ''git-force-push'',
                 ''chmod-777'', ''dd'', ''mkfs'', ''git-clean-fd'', ''curl-pipe-sh'']
   \<and> evaluate (new_WarningEngine example_RegExp example_config) 1707984000000 (js ''mkfs'')
       = Some (spec_result 1707984000000 (js ''mkfs'') format_rule)
   \<and> (\<exists>q \<in> set (allRules (new_WarningEngine example_RegExp example_config)).
         compiles example_RegExp q
         \<and> spec_matches example_RegExp (js_trim (js ''mkfs'')) q
         \<and> spec_result 1707984000000 (js ''mkfs'') format_rule
             = spec_result 1707984000000 (js_trim (js ''mkfs'')) q)"
proof -
  note inst = compile_failures_skipped
      [of example_RegExp example_config example_engine broken_rule 1707984000000 "js ''mkfs''"]
  have ev: "evaluate (new_WarningEngine example_RegExp example_config) 1707984000000 (js ''mkfs'')
       = Some (spec_result 1707984000000 (js ''mkfs'') format_rule)"
    by (simp add: evaluate_new spec_evaluate_def spec_rule_set_def spec_matches_def example_defs)
  have rules: "allRules example_engine = BUILT_IN_RULES"
    by (simp add: example_engine_def allRules_new spec_rule_set_def default_warnings_def)
  from inst have "\<exists>q \<in> set (allRules (new_WarningEngine example_RegExp example_config)).
         compiles example_RegExp q
         \<and> spec_matches example_RegExp (js_trim (js ''mkfs'')) q
         \<and> spec_result 1707984000000 (js ''mkfs'') format_rule
             = spec_result 1707984000000 (js_trim (js ''mkfs'')) q"
    using ev by simp
  moreover from inst
  have "map id' (map rule (compiledRules (new_WarningEngine example_RegExp example_config)))
       = map js [''rm-rf'', ''rm-root'', ''sudo'', ''git-reset-hard'', ''git-force-push'',
                 ''chmod-777'', ''dd'', ''git-clean-fd'', ''curl-pipe-sh'', ''custom-format'']"
    by (simp add: allRules_new spec_rule_set_def compiles_def example_defs)
  moreover from inst
  have "map id' (map rule (compiledRules (addRule example_RegExp example_engine broken_rule)))
       = map js [''rm-rf'', ''rm-root'', ''sudo'', ''git-reset-hard'', ''git-force-push'',
                 ''chmod-777'', ''dd'', ''mkfs'', ''git-clean-fd'', ''curl-pipe-sh'']"
    by (simp add: rules compiles_def example_defs)
  moreover have "\<not> compiles example_RegExp broken_rule"
    by (simp add: compiles_def example_defs)
  moreover have "broken_rule \<in> set (allRules (new_WarningEngine example_RegExp example_config))"
    by (simp add: allRules_new spec_rule_set_def example_config_def)
  ultimately show ?thesis using ev by simp
qed

section \<open>Properties of the warning pipeline\<close>

subsection \<open>The string iterator and the loop\<close>

lemma string_iterator_Cons:
  "\<not> is_high_surrogate c \<Longrightarrow> string_iterator (c # cs) = [c] # string_iterator cs"
  by (cases cs) simp_all

lemma string_iterator_append:
  "\<not> is_low_surrogate y \<Longrightarrow>
     string_iterator (xs @ y # ys) = string_iterator xs @ string_iterator (y # ys)"
  by (induction xs rule: string_iterator.induct) auto

lemma string_iterator_snoc:
  "\<not> is_low_surrogate c \<Longrightarrow> string_iterator (data @ [c]) = string_iterator data @ [[c]]"
  by (simp add: string_iterator_append)

lemma string_iterator_plain:
  "list_all is_plain data \<Longrightarrow> string_iterator data = map (\<lambda>c. [c]) data"
  by (induction data) (simp_all add: string_iterator_Cons is_plain_def)

lemma string_iterator_plain_append:
  "list_all is_plain xs \<Longrightarrow> string_iterator (xs @ ys) = map (\<lambda>c. [c]) xs @ string_iterator ys"
  by (induction xs) (simp_all add: string_iterator_Cons is_plain_def)

lemma length_string_iterator: "ch \<in> set (string_iterator data) \<Longrightarrow> length ch \<le> 2"
  by (induction data rule: string_iterator.induct) (auto split: if_splits)

lemma ptyProcess_ShellManager_write [simp]:
  "ptyProcess (ShellManager_write s d) = ptyProcess s"
  by (simp add: ShellManager_write_def)

lemma ptyProcess_handle_char [simp]:
  "ptyProcess (handle_char e n s ch) = ptyProcess s"
  by (simp add: handle_char_def Let_def split: option.splits)

lemma ptyProcess_write_loop [simp]:
  "ptyProcess (write_loop e n s chs) = ptyProcess s"
  unfolding write_loop_def by (induction chs arbitrary: s) simp_all

lemma write_loop_Nil [simp]: "write_loop e n s [] = s"
  by (simp add: write_loop_def)

lemma write_loop_Cons [simp]:
  "write_loop e n s (ch # chs) = write_loop e n (handle_char e n s ch) chs"
  by (simp add: write_loop_def)

lemma write_loop_append:
  "write_loop e n s (xs @ ys) = write_loop e n (write_loop e n s xs) ys"
  by (simp add: write_loop_def)

lemma SHELL_WRITE_alive:
  "ptyProcess s \<Longrightarrow> SHELL_WRITE e n s data = write_loop e n s (string_iterator data)"
  by (simp add: SHELL_WRITE_def ShellManager_isAlive_def)

lemma SHELL_WRITE_snoc:
  "ptyProcess s \<Longrightarrow> \<not> is_low_surrogate c \<Longrightarrow>
     SHELL_WRITE e n s (data @ [c]) = handle_char e n (SHELL_WRITE e n s data) [c]"
  by (simp add: SHELL_WRITE_alive string_iterator_snoc write_loop_append)

lemma SHELL_WRITE_single:
  "ptyProcess s \<Longrightarrow> SHELL_WRITE e n s [c] = handle_char e n s [c]"
  by (simp add: SHELL_WRITE_alive)

lemma SHELL_WRITE_append:
  "ptyProcess s \<Longrightarrow> ys = [] \<or> \<not> is_low_surrogate (hd ys) \<Longrightarrow>
     SHELL_WRITE e n s (xs @ ys) = SHELL_WRITE e n (SHELL_WRITE e n s xs) ys"
  by (cases ys) (simp_all add: SHELL_WRITE_alive string_iterator_append write_loop_append)

subsection \<open>The branches of the loop body\<close>

lemma not_low_terminator: "c = 0x0D \<or> c = 0x0A \<Longrightarrow> \<not> is_low_surrogate (c :: 16 word)"
  by (auto simp: is_low_surrogate_def)

lemma handle_char_terminator:
  "\<not> inEscapeSequence s \<Longrightarrow> c = 0x0D \<or> c = 0x0A \<Longrightarrow>
   handle_char e n s [c] =
     (if js_trim (lineBuffer s) = [] then (ShellManager_write s [c])\<lparr>lineBuffer := []\<rparr>
      else case evaluate e (n (dateNowCalls s)) (js_trim (lineBuffer s)) of
             None \<Rightarrow> (ShellManager_write s [c])\<lparr>lineBuffer := []\<rparr>
           | Some r \<Rightarrow>
               s\<lparr>dateNowCalls := Suc (dateNowCalls s),
                 pendingCommands := (pendingCommands s)
                   (WarningResult.warningId r \<mapsto>
                      \<lparr>PendingCommand.warningId = WarningResult.warningId r,
                       pendingData = [0x0D]\<rparr>),
                 warningTriggered :=
                   (if webContents s then warningTriggered s @ [display_payload r]
                    else warningTriggered s)\<rparr>)"
  by (auto simp: handle_char_def charCodeAt0_below_0x20_def Let_def split: option.splits)

lemma held_step:
  assumes "ptyProcess s" and "\<not> inEscapeSequence s" and "c = 0x0D \<or> c = 0x0A"
    and "js_trim (lineBuffer s) \<noteq> []"
    and "evaluate eng (Date_now (dateNowCalls s)) (js_trim (lineBuffer s)) = Some r"
  shows "SHELL_WRITE eng Date_now s [c] =
     s\<lparr>dateNowCalls := Suc (dateNowCalls s),
       pendingCommands := (pendingCommands s)
         (WarningResult.warningId r \<mapsto>
            \<lparr>PendingCommand.warningId = WarningResult.warningId r, pendingData = [0x0D]\<rparr>),
       warningTriggered :=
         (if webContents s then warningTriggered s @ [display_payload r]
          else warningTriggered s)\<rparr>"
  using assms by (simp add: SHELL_WRITE_single handle_char_terminator)

lemma handle_char_plain:
  "is_plain c \<Longrightarrow> \<not> inEscapeSequence s \<Longrightarrow>
   handle_char e n s [c] =
     ShellManager_write
       (if length (lineBuffer s) < MAX_LINE_BUFFER_LENGTH
        then s\<lparr>lineBuffer := lineBuffer s @ [c]\<rparr> else s) [c]"
  by (auto simp: handle_char_def charCodeAt0_below_0x20_def is_plain_def Let_def)

lemma write_loop_plain:
  "list_all is_plain data \<Longrightarrow> \<not> inEscapeSequence s \<Longrightarrow> ptyProcess s \<Longrightarrow>
   length (lineBuffer s) + length data \<le> MAX_LINE_BUFFER_LENGTH \<Longrightarrow>
   write_loop e n s (map (\<lambda>c. [c]) data) =
     s\<lparr>lineBuffer := lineBuffer s @ data, ptyWritten := ptyWritten s @ map (\<lambda>c. [c]) data\<rparr>"
proof (induction data arbitrary: s)
  case Nil
  show ?case by simp
next
  case (Cons c cs)
  let ?s1 = "s\<lparr>lineBuffer := lineBuffer s @ [c], ptyWritten := ptyWritten s @ [[c]]\<rparr>"
  from Cons.prems have h: "handle_char e n s [c] = ?s1"
    by (simp add: handle_char_plain ShellManager_write_def)
  from Cons.prems have "write_loop e n ?s1 (map (\<lambda>c. [c]) cs) =
     ?s1\<lparr>lineBuffer := lineBuffer ?s1 @ cs, ptyWritten := ptyWritten ?s1 @ map (\<lambda>c. [c]) cs\<rparr>"
    by (intro Cons.IH) simp_all
  with h show ?case by simp
qed

lemma SHELL_WRITE_plain:
  "list_all is_plain data \<Longrightarrow> \<not> inEscapeSequence s \<Longrightarrow> ptyProcess s \<Longrightarrow>
   length (lineBuffer s) + length data \<le> MAX_LINE_BUFFER_LENGTH \<Longrightarrow>
   SHELL_WRITE e n s data =
     s\<lparr>lineBuffer := lineBuffer s @ data, ptyWritten := ptyWritten s @ map (\<lambda>c. [c]) data\<rparr>"
  by (simp add: SHELL_WRITE_alive string_iterator_plain write_loop_plain)

lemma handle_char_surrogate_pair:
  assumes "is_high_surrogate hi" and "is_low_surrogate lo"
    and "\<not> inEscapeSequence s" and "ptyProcess s"
    and "length (lineBuffer s) < MAX_LINE_BUFFER_LENGTH"
  shows "handle_char e n s [hi, lo] =
     s\<lparr>lineBuffer := lineBuffer s @ [hi, lo], ptyWritten := ptyWritten s @ [[hi, lo]]\<rparr>"
proof -
  from assms(1) have "\<not> hi < 0x20"
    by (simp add: is_high_surrogate_def word_le_def word_less_def)
  with assms show ?thesis
    by (simp add: handle_char_def charCodeAt0_below_0x20_def ShellManager_write_def Let_def)
qed

lemma handle_char_ESC:
  "ptyProcess s \<Longrightarrow>
   handle_char e n s [0x1B] = s\<lparr>inEscapeSequence := True, ptyWritten := ptyWritten s @ [[0x1B]]\<rparr>"
  by (simp add: handle_char_def ShellManager_write_def)

lemma handle_char_escape_body:
  "inEscapeSequence s \<Longrightarrow> ptyProcess s \<Longrightarrow> \<not> list_ex is_letter_or_tilde ch \<Longrightarrow>
   handle_char e n s ch = s\<lparr>ptyWritten := ptyWritten s @ [ch]\<rparr>"
  by (cases s) (simp add: handle_char_def ShellManager_write_def)

lemma handle_char_escape_end:
  "inEscapeSequence s \<Longrightarrow> ptyProcess s \<Longrightarrow> list_ex is_letter_or_tilde t \<Longrightarrow>
   handle_char e n s t = s\<lparr>inEscapeSequence := False, ptyWritten := ptyWritten s @ [t]\<rparr>"
  by (cases s) (auto simp: handle_char_def ShellManager_write_def is_letter_or_tilde_def)

lemma write_loop_escape_body:
  "\<forall>ch \<in> set body. \<not> list_ex is_letter_or_tilde ch \<Longrightarrow> inEscapeSequence s \<Longrightarrow> ptyProcess s \<Longrightarrow>
   write_loop e n s body = s\<lparr>ptyWritten := ptyWritten s @ body\<rparr>"
proof (induction body arbitrary: s)
  case Nil
  show ?case by simp
next
  case (Cons ch body)
  let ?s1 = "s\<lparr>ptyWritten := ptyWritten s @ [ch]\<rparr>"
  from Cons.prems have h: "handle_char e n s ch = ?s1"
    by (simp add: handle_char_escape_body)
  from Cons.prems have "write_loop e n ?s1 body = ?s1\<lparr>ptyWritten := ptyWritten ?s1 @ body\<rparr>"
    by (intro Cons.IH) simp_all
  with h show ?case by simp
qed

lemma write_loop_escape_prefix:
  assumes "ptyProcess s" and "\<forall>ch \<in> set body. \<not> list_ex is_letter_or_tilde ch"
  shows "write_loop e n s ([0x1B] # body) =
     s\<lparr>inEscapeSequence := True, ptyWritten := ptyWritten s @ [0x1B] # body\<rparr>"
  using assms by (simp add: handle_char_ESC write_loop_escape_body)

subsection \<open>Concrete runs\<close>

text \<open>
  The engine of the default configuration over \<open>example_RegExp\<close> warns exactly when the
  trimmed candidate contains \<^verbatim>\<open>mkfs\<close> in any case; the runs below type \<^verbatim>\<open>mkfs\<close> or
  \<^verbatim>\<open>ls\<close> into a fresh session.
\<close>

lemma evaluate_example_engine:
  "evaluate example_engine now c =
     (if js_trim c \<noteq> [] \<and> contains (js ''mkfs'') (map to_lower (js_trim c))
      then Some (spec_result now (js_trim c) mkfs_rule) else None)"
  unfolding example_engine_def evaluate_new
  by (simp add: spec_evaluate_def spec_rule_set_def spec_matches_def mkfs_rule_def
      default_warnings_def BUILT_IN_RULES_def example_RegExp_def js_def backslash_def
      is_ascii_letter_def to_lower_def)

lemma warningId_spec_result [simp]:
  "WarningResult.warningId (spec_result now t r) = js ''warn-'' @ js_of_nat now"
  by (simp add: spec_result_def)

lemma fresh_state_simps:
  "lineBuffer fresh_state = []" "pendingCommands fresh_state = Map.empty"
  "\<not> inEscapeSequence fresh_state" "ptyProcess fresh_state" "ptyWritten fresh_state = []"
  "webContents fresh_state" "warningTriggered fresh_state = []" "dateNowCalls fresh_state = 0"
  by (simp_all add: fresh_state_def)

lemma typed_mkfs:
  "SHELL_WRITE e n fresh_state (js ''mkfs'') =
     fresh_state\<lparr>lineBuffer := js ''mkfs'', ptyWritten := map (\<lambda>c. [c]) (js ''mkfs'')\<rparr>"
  by (subst SHELL_WRITE_plain)
     (simp_all add: fresh_state_def js_def is_plain_def is_high_surrogate_def
        is_low_surrogate_def MAX_LINE_BUFFER_LENGTH_def)

lemma typed_ls:
  "SHELL_WRITE e n fresh_state (js ''ls'') =
     fresh_state\<lparr>lineBuffer := js ''ls'', ptyWritten := map (\<lambda>c. [c]) (js ''ls'')\<rparr>"
  by (subst SHELL_WRITE_plain)
     (simp_all add: fresh_state_def js_def is_plain_def is_high_surrogate_def
        is_low_surrogate_def MAX_LINE_BUFFER_LENGTH_def)

lemma typed_nothing: "SHELL_WRITE e n fresh_state [] = fresh_state"
  by (simp add: SHELL_WRITE_def)

lemma trim_mkfs: "js_trim (js ''mkfs'') = js ''mkfs''"
  by (simp add: js_trim_def js_def is_white_space_def)

lemma trim_Nil: "js_trim [] = []"
  by (simp add: js_trim_def)

lemma trim_ls: "js_trim (js ''ls'') = js ''ls''"
  by (simp add: js_trim_def js_def is_white_space_def)

lemma evaluate_mkfs:
  "evaluate example_engine now (js ''mkfs'') = Some (spec_result now (js ''mkfs'') mkfs_rule)"
  by (simp add: evaluate_example_engine trim_mkfs) (simp add: js_def to_lower_def)

lemma evaluate_ls: "evaluate example_engine now (js ''ls'') = None"
  by (simp add: evaluate_example_engine trim_ls) (simp add: js_def to_lower_def)

lemma held_mkfs:
  assumes c: "c = 0x0D \<or> c = 0x0A"
  shows "SHELL_WRITE example_engine n fresh_state (js ''mkfs'' @ [c]) =
     fresh_state
       \<lparr>lineBuffer := js ''mkfs'',
        pendingCommands :=
          [js ''warn-'' @ js_of_nat (n 0) \<mapsto>
             \<lparr>PendingCommand.warningId = js ''warn-'' @ js_of_nat (n 0), pendingData = [0x0D]\<rparr>],
        ptyWritten := map (\<lambda>c. [c]) (js ''mkfs''),
        warningTriggered := [display_payload (spec_result (n 0) (js ''mkfs'') mkfs_rule)],
        dateNowCalls := 1\<rparr>"
proof -
  let ?s1 = "fresh_state\<lparr>lineBuffer := js ''mkfs'', ptyWritten := map (\<lambda>c. [c]) (js ''mkfs'')\<rparr>"
  have "SHELL_WRITE example_engine n fresh_state (js ''mkfs'' @ [c])
      = SHELL_WRITE example_engine n ?s1 [c]"
    using c by (subst SHELL_WRITE_append) (auto simp: typed_mkfs fresh_state_simps is_low_surrogate_def)
  also have "\<dots> = ?s1\<lparr>dateNowCalls := Suc (dateNowCalls ?s1),
       pendingCommands := (pendingCommands ?s1)
         (WarningResult.warningId (spec_result (n 0) (js ''mkfs'') mkfs_rule) \<mapsto>
            \<lparr>PendingCommand.warningId = WarningResult.warningId (spec_result (n 0) (js ''mkfs'') mkfs_rule), pendingData = [0x0D]\<rparr>),
       warningTriggered :=
         (if webContents ?s1 then warningTriggered ?s1 @ [display_payload (spec_result (n 0) (js ''mkfs'') mkfs_rule)]
          else warningTriggered ?s1)\<rparr>"
    by (rule held_step [OF _ _ c]) (simp_all add: fresh_state_simps trim_mkfs evaluate_mkfs, simp add: js_def)
  finally show ?thesis by (simp add: fresh_state_simps)
qed

lemma held_again:
  assumes c: "c = 0x0D \<or> c = 0x0A"
  shows "SHELL_WRITE example_engine n
           (SHELL_WRITE example_engine n fresh_state (js ''mkfs'' @ [0x0D])) [c] =
     fresh_state
       \<lparr>lineBuffer := js ''mkfs'',
        pendingCommands :=
          [js ''warn-'' @ js_of_nat (n 0) \<mapsto>
             \<lparr>PendingCommand.warningId = js ''warn-'' @ js_of_nat (n 0), pendingData = [0x0D]\<rparr>,
           js ''warn-'' @ js_of_nat (n 1) \<mapsto>
             \<lparr>PendingCommand.warningId = js ''warn-'' @ js_of_nat (n 1), pendingData = [0x0D]\<rparr>],
        ptyWritten := map (\<lambda>c. [c]) (js ''mkfs''),
        warningTriggered := [display_payload (spec_result (n 0) (js ''mkfs'') mkfs_rule),
                             display_payload (spec_result (n 1) (js ''mkfs'') mkfs_rule)],
        dateNowCalls := 2\<rparr>"
proof -
  let ?v1 = "fresh_state
       \<lparr>lineBuffer := js ''mkfs'',
        pendingCommands :=
          [js ''warn-'' @ js_of_nat (n 0) \<mapsto>
             \<lparr>PendingCommand.warningId = js ''warn-'' @ js_of_nat (n 0), pendingData = [0x0D]\<rparr>],
        ptyWritten := map (\<lambda>c. [c]) (js ''mkfs''),
        warningTriggered := [display_payload (spec_result (n 0) (js ''mkfs'') mkfs_rule)],
        dateNowCalls := 1\<rparr>"
  have s1: "SHELL_WRITE example_engine n fresh_state (js ''mkfs'' @ [0x0D]) = ?v1"
    by (rule held_mkfs) simp
  have "SHELL_WRITE example_engine n ?v1 [c] =
     ?v1\<lparr>dateNowCalls := Suc (dateNowCalls ?v1),
       pendingCommands := (pendingCommands ?v1)
         (WarningResult.warningId (spec_result (n 1) (js ''mkfs'') mkfs_rule) \<mapsto>
            \<lparr>PendingCommand.warningId =
               WarningResult.warningId (spec_result (n 1) (js ''mkfs'') mkfs_rule),
             pendingData = [0x0D]\<rparr>),
       warningTriggered :=
         (if webContents ?v1
          then warningTriggered ?v1 @ [display_payload (spec_result (n 1) (js ''mkfs'') mkfs_rule)]
          else warningTriggered ?v1)\<rparr>"
    by (rule held_step [OF _ _ c])
       (simp_all add: fresh_state_simps trim_mkfs evaluate_mkfs, simp add: js_def)
  then show ?thesis
    by (simp add: s1 fresh_state_simps)
qed

lemma held_twice:
  "SHELL_WRITE example_engine n fresh_state (js ''mkfs'' @ [0x0D, 0x0A]) =
     fresh_state
       \<lparr>lineBuffer := js ''mkfs'',
        pendingCommands :=
          [js ''warn-'' @ js_of_nat (n 0) \<mapsto>
             \<lparr>PendingCommand.warningId = js ''warn-'' @ js_of_nat (n 0), pendingData = [0x0D]\<rparr>,
           js ''warn-'' @ js_of_nat (n 1) \<mapsto>
             \<lparr>PendingCommand.warningId = js ''warn-'' @ js_of_nat (n 1), pendingData = [0x0D]\<rparr>],
        ptyWritten := map (\<lambda>c. [c]) (js ''mkfs''),
        warningTriggered := [display_payload (spec_result (n 0) (js ''mkfs'') mkfs_rule),
                             display_payload (spec_result (n 1) (js ''mkfs'') mkfs_rule)],
        dateNowCalls := 2\<rparr>"
proof -
  have "SHELL_WRITE example_engine n fresh_state ((js ''mkfs'' @ [0x0D]) @ [0x0A])
      = SHELL_WRITE example_engine n
          (SHELL_WRITE example_engine n fresh_state (js ''mkfs'' @ [0x0D])) [0x0A]"
    by (rule SHELL_WRITE_append) (simp_all add: fresh_state_simps is_low_surrogate_def)
  then show ?thesis
    by (simp add: held_again)
qed

lemma warn_id_0: "js ''warn-'' @ js_of_nat 1707984000000 = js ''warn-1707984000000''"
  by (simp add: js_def js_of_nat.simps)

lemma warn_id_1: "js ''warn-'' @ js_of_nat 1707984000001 = js ''warn-1707984000001''"
  by (simp add: js_def js_of_nat.simps)

lemma warn_ids_differ: "js ''warn-1707984000000'' \<noteq> js ''warn-1707984000001''"
  by (simp add: js_def)

lemma mkfs_text: "map (\<lambda>c. [c]) (js ''mkfs'') = [[0x6D], [0x6B], [0x66], [0x73]]"
  by (simp add: js_def)

lemma mkfs_not_empty: "js ''mkfs'' \<noteq> []"
  by (simp add: js_def)

lemmas trace_simps = held_mkfs held_again held_twice typed_mkfs typed_ls fresh_state_simps
  frozen_clock_def ticking_clock_def warn_id_0 warn_id_1 warn_ids_differ mkfs_text
  trim_mkfs trim_ls evaluate_mkfs evaluate_ls mkfs_not_empty

subsection \<open>Line terminators\<close>

text \<open>
  C1, as the code has it. While the shell is alive and the loop is not inside an escape
  sequence, a line terminator \<open>c\<close> (CR or LF) that follows \<open>data\<close> is handled thus, with
  \<open>candidate\<close> the trimmed line buffer: if the candidate is empty the terminator is
  forwarded at once and the clock is not read; if \<open>evaluate\<close> returns no match the
  terminator is forwarded at once; in both cases the ledger and the emitted events are
  unchanged. If \<open>evaluate\<close> returns a result \<open>r\<close>, nothing is forwarded, the ledger gets
  an entry under the identifier of \<open>r\<close> whose \<open>pendingData\<close> is the carriage return
  (whichever terminator was withheld), and, when a window exists, the display payload of
  \<open>r\<close> is sent on \<^verbatim>\<open>warning:triggered\<close>.
\<close>

theorem line_terminator_gate:
  assumes alive: "ptyProcess s"
    and c: "c = 0x0D \<or> c = 0x0A"
    and s1: "s1 = SHELL_WRITE eng Date_now s data"
    and s2: "s2 = SHELL_WRITE eng Date_now s (data @ [c])"
    and esc: "\<not> inEscapeSequence s1"
    and cand: "candidate = js_trim (lineBuffer s1)"
  shows "(candidate = [] \<or> evaluate eng (Date_now (dateNowCalls s1)) candidate = None \<longrightarrow>
            ptyWritten s2 = ptyWritten s1 @ [[c]]
          \<and> pendingCommands s2 = pendingCommands s1
          \<and> warningTriggered s2 = warningTriggered s1)
       \<and> (candidate = [] \<longrightarrow> dateNowCalls s2 = dateNowCalls s1)
       \<and> (\<forall>r. candidate \<noteq> [] \<and> evaluate eng (Date_now (dateNowCalls s1)) candidate = Some r \<longrightarrow>
            ptyWritten s2 = ptyWritten s1
          \<and> pendingCommands s2 = (pendingCommands s1)
               (WarningResult.warningId r \<mapsto>
                  \<lparr>PendingCommand.warningId = WarningResult.warningId r, pendingData = [0x0D]\<rparr>)
          \<and> (webContents s1 \<longrightarrow> warningTriggered s2 = warningTriggered s1 @ [display_payload r]))"
proof -
  have a1: "ptyProcess s1" using alive s1 by (simp add: SHELL_WRITE_alive)
  have "s2 = handle_char eng Date_now s1 [c]"
    using alive c s1 s2 by (simp add: SHELL_WRITE_snoc not_low_terminator)
  then have step: "s2 =
     (if candidate = [] then (ShellManager_write s1 [c])\<lparr>lineBuffer := []\<rparr>
      else case evaluate eng (Date_now (dateNowCalls s1)) candidate of
             None \<Rightarrow> (ShellManager_write s1 [c])\<lparr>lineBuffer := []\<rparr>
           | Some r \<Rightarrow>
               s1\<lparr>dateNowCalls := Suc (dateNowCalls s1),
                 pendingCommands := (pendingCommands s1)
                   (WarningResult.warningId r \<mapsto>
                      \<lparr>PendingCommand.warningId = WarningResult.warningId r,
                       pendingData = [0x0D]\<rparr>),
                 warningTriggered :=
                   (if webContents s1 then warningTriggered s1 @ [display_payload r]
                    else warningTriggered s1)\<rparr>)"
    using esc c cand by (simp add: handle_char_terminator)
  show ?thesis
    using a1 by (auto simp: step ShellManager_write_def)
qed

text \<open>Three runs: an empty line, \<^verbatim>\<open>ls\<close> (no match) and \<^verbatim>\<open>mkfs\<close> (match), each ended by CR.\<close>

theorem line_terminator_gate_witness:
  "ptyProcess fresh_state
   \<and> ptyWritten (SHELL_WRITE example_engine (\<lambda>k. 1707984000000) fresh_state ([] @ [0x0D]))
       = [[0x0D]]
   \<and> dateNowCalls (SHELL_WRITE example_engine (\<lambda>k. 1707984000000) fresh_state ([] @ [0x0D]))
       = 0
   \<and> evaluate example_engine 1707984000000 (js ''ls'') = None
   \<and> ptyWritten (SHELL_WRITE example_engine (\<lambda>k. 1707984000000) fresh_state (js ''ls'' @ [0x0D]))
       = [[0x6C], [0x73], [0x0D]]
   \<and> evaluate example_engine 1707984000000 (js ''mkfs'')
       = Some (spec_result 1707984000000 (js ''mkfs'') mkfs_rule)
   \<and> ptyWritten (SHELL_WRITE example_engine (\<lambda>k. 1707984000000) fresh_state (js ''mkfs'' @ [0x0D]))
       = [[0x6D], [0x6B], [0x66], [0x73]]
   \<and> pendingCommands
        (SHELL_WRITE example_engine (\<lambda>k. 1707984000000) fresh_state (js ''mkfs'' @ [0x0D]))
        (js ''warn-1707984000000'')
       = Some \<lparr>PendingCommand.warningId = js ''warn-1707984000000'', pendingData = [0x0D]\<rparr>
   \<and> warningTriggered
        (SHELL_WRITE example_engine (\<lambda>k. 1707984000000) fresh_state (js ''mkfs'' @ [0x0D]))
       = [display_payload (spec_result 1707984000000 (js ''mkfs'') mkfs_rule)]"
  using
    line_terminator_gate [of fresh_state "0x0D" _ example_engine "\<lambda>k. 1707984000000" "[]" _ _,
      OF _ _ refl refl _ refl]
    line_terminator_gate [of fresh_state "0x0D" _ example_engine "\<lambda>k. 1707984000000" "js ''ls''" _ _,
      OF _ _ refl refl _ refl]
    line_terminator_gate [of fresh_state "0x0D" _ example_engine "\<lambda>k. 1707984000000" "js ''mkfs''" _ _,
      OF _ _ refl refl _ refl]
  by (simp add: typed_mkfs typed_ls typed_nothing trim_mkfs trim_ls evaluate_mkfs evaluate_ls
      trim_Nil fresh_state_simps)
     (simp add: js_def spec_result_def js_of_nat.simps)

text \<open>
  C1 as stated fails where the withheld terminator is a line feed: \<^verbatim>\<open>mkfs\<close> followed by
  LF leaves the LF unforwarded, and the ledger entry holds a carriage return, not the
  withheld byte.
\<close>

theorem pending_entry_holds_carriage_return:
  "ptyWritten (SHELL_WRITE example_engine frozen_clock fresh_state (js ''mkfs'' @ [0x0A]))
     = ptyWritten (SHELL_WRITE example_engine frozen_clock fresh_state (js ''mkfs''))
   \<and> map_option pendingData
        (pendingCommands
           (SHELL_WRITE example_engine frozen_clock fresh_state (js ''mkfs'' @ [0x0A]))
           (js ''warn-1707984000000''))
     = Some [0x0D]
   \<and> [0x0D] \<noteq> [0x0A :: 16 word]"
  by (simp add: trace_simps)

subsection \<open>Confirm and cancel\<close>

text \<open>
  C2, as the code has it. Let a terminator be withheld on a rule match with result \<open>r\<close>,
  the shell being alive. Then nothing was forwarded for the terminator; \<open>confirm\<close> with
  the identifier of \<open>r\<close> forwards exactly one carriage return (the recorded \<open>pendingData\<close>,
  which is the withheld byte when that was CR) and a second \<open>confirm\<close> forwards nothing
  more; \<open>cancel\<close> forwards only the kill-line byte 0x15, once; either call removes the
  ledger entry.
\<close>

theorem confirm_forwards_carriage_return:
  assumes alive: "ptyProcess s" and esc: "\<not> inEscapeSequence s"
    and c: "c = 0x0D \<or> c = 0x0A"
    and cand: "js_trim (lineBuffer s) \<noteq> []"
    and ev: "evaluate eng (Date_now (dateNowCalls s)) (js_trim (lineBuffer s)) = Some r"
    and s2: "s2 = SHELL_WRITE eng Date_now s [c]"
    and wid: "wid = WarningResult.warningId r"
  shows "ptyWritten s2 = ptyWritten s
       \<and> ptyWritten (WARNING_CONFIRM s2 wid) = ptyWritten s @ [[0x0D]]
       \<and> pendingCommands (WARNING_CONFIRM s2 wid) wid = None
       \<and> ptyWritten (WARNING_CONFIRM (WARNING_CONFIRM s2 wid) wid) = ptyWritten s @ [[0x0D]]
       \<and> ptyWritten (WARNING_CANCEL s2 wid) = ptyWritten s @ [[0x15]]
       \<and> pendingCommands (WARNING_CANCEL s2 wid) wid = None
       \<and> ptyWritten (WARNING_CANCEL (WARNING_CANCEL s2 wid) wid) = ptyWritten s @ [[0x15]]"
  using alive
  by (simp add: s2 wid held_step [where Date_now = Date_now, OF alive esc c cand ev] WARNING_CONFIRM_def WARNING_CANCEL_def
      ShellManager_write_def)

text \<open>The run \<^verbatim>\<open>mkfs\<close>, CR, then confirm or cancel.\<close>

theorem confirm_forwards_carriage_return_witness:
  "ptyProcess (SHELL_WRITE example_engine frozen_clock fresh_state (js ''mkfs''))
   \<and> \<not> inEscapeSequence (SHELL_WRITE example_engine frozen_clock fresh_state (js ''mkfs''))
   \<and> js_trim (lineBuffer (SHELL_WRITE example_engine frozen_clock fresh_state (js ''mkfs''))) \<noteq> []
   \<and> evaluate example_engine
        (frozen_clock (dateNowCalls (SHELL_WRITE example_engine frozen_clock fresh_state (js ''mkfs''))))
        (js_trim (lineBuffer (SHELL_WRITE example_engine frozen_clock fresh_state (js ''mkfs''))))
       = Some (spec_result 1707984000000 (js ''mkfs'') mkfs_rule)
   \<and> ptyWritten
        (SHELL_WRITE example_engine frozen_clock
           (SHELL_WRITE example_engine frozen_clock fresh_state (js ''mkfs'')) [0x0D])
       = [[0x6D], [0x6B], [0x66], [0x73]]
   \<and> ptyWritten
        (WARNING_CONFIRM
           (SHELL_WRITE example_engine frozen_clock
              (SHELL_WRITE example_engine frozen_clock fresh_state (js ''mkfs'')) [0x0D])
           (js ''warn-1707984000000''))
       = [[0x6D], [0x6B], [0x66], [0x73], [0x0D]]
   \<and> ptyWritten
        (WARNING_CANCEL
           (SHELL_WRITE example_engine frozen_clock
              (SHELL_WRITE example_engine frozen_clock fresh_state (js ''mkfs'')) [0x0D])
           (js ''warn-1707984000000''))
       = [[0x6D], [0x6B], [0x66], [0x73], [0x15]]"
  using confirm_forwards_carriage_return
    [of "SHELL_WRITE example_engine frozen_clock fresh_state (js ''mkfs'')" "0x0D"
        example_engine frozen_clock "spec_result 1707984000000 (js ''mkfs'') mkfs_rule"
        _ "js ''warn-1707984000000''", OF _ _ _ _ _ refl]
  by (simp add: typed_mkfs fresh_state_simps frozen_clock_def warn_id_0 mkfs_text trim_mkfs
      evaluate_mkfs mkfs_not_empty)

text \<open>
  C2 as stated fails for a withheld line feed: after \<^verbatim>\<open>mkfs\<close> and LF, \<open>confirm\<close> sends a
  carriage return to the shell, so the bytes that reached it are not the bytes typed.
\<close>

theorem confirm_after_line_feed_sends_carriage_return:
  "ptyWritten
     (WARNING_CONFIRM
        (SHELL_WRITE example_engine frozen_clock fresh_state (js ''mkfs'' @ [0x0A]))
        (js ''warn-1707984000000''))
     = [[0x6D], [0x6B], [0x66], [0x73], [0x0D]]"
  by (simp add: trace_simps WARNING_CONFIRM_def ShellManager_write_def)

text \<open>
  C3. A \<open>confirm\<close> or \<open>cancel\<close> whose identifier is not in the ledger leaves the whole
  state as it is (ledger, buffer, forwarded bytes). After a \<open>confirm\<close> or \<open>cancel\<close> with
  an identifier, a further \<open>confirm\<close> or \<open>cancel\<close> with the same identifier changes
  nothing. Both handlers are total: they have no error result.
\<close>

theorem resolution_idempotent:
  "(pendingCommands s wid = None \<longrightarrow> WARNING_CONFIRM s wid = s \<and> WARNING_CANCEL s wid = s)
   \<and> WARNING_CONFIRM (WARNING_CONFIRM s wid) wid = WARNING_CONFIRM s wid
   \<and> WARNING_CANCEL (WARNING_CONFIRM s wid) wid = WARNING_CONFIRM s wid
   \<and> WARNING_CONFIRM (WARNING_CANCEL s wid) wid = WARNING_CANCEL s wid
   \<and> WARNING_CANCEL (WARNING_CANCEL s wid) wid = WARNING_CANCEL s wid"
  by (simp add: WARNING_CONFIRM_def WARNING_CANCEL_def ShellManager_write_def
      split: option.splits)

text \<open>An identifier that was never issued, on a fresh session.\<close>

theorem resolution_idempotent_witness:
  "pendingCommands fresh_state (js ''warn-1707984000000'') = None
   \<and> WARNING_CONFIRM fresh_state (js ''warn-1707984000000'') = fresh_state
   \<and> WARNING_CANCEL fresh_state (js ''warn-1707984000000'') = fresh_state"
  using resolution_idempotent [of fresh_state "js ''warn-1707984000000''"]
  by (simp add: fresh_state_simps)

text \<open>
  When the shell exits, the callback empties the ledger, so a decision that was pending
  is gone and a later \<open>confirm\<close> or \<open>cancel\<close> with its identifier does nothing.
\<close>

lemma resolution_after_exit:
  "WARNING_CONFIRM (shell_onExit s) wid = shell_onExit s
   \<and> WARNING_CANCEL (shell_onExit s) wid = shell_onExit s"
  by (simp add: WARNING_CONFIRM_def WARNING_CANCEL_def shell_onExit_def)

subsection \<open>Several pending decisions\<close>

text \<open>
  The ledger is a map and the match branch only adds to it: when a match is recorded
  while an earlier decision is pending under a different identifier, the earlier entry
  stays, and a \<open>confirm\<close> with the earlier identifier forwards its payload.
\<close>

lemma second_match_keeps_earlier_decision:
  assumes alive: "ptyProcess s" and esc: "\<not> inEscapeSequence s"
    and c: "c = 0x0D \<or> c = 0x0A"
    and cand: "js_trim (lineBuffer s) \<noteq> []"
    and ev: "evaluate eng (Date_now (dateNowCalls s)) (js_trim (lineBuffer s)) = Some r"
    and s2: "s2 = SHELL_WRITE eng Date_now s [c]"
    and earlier: "pendingCommands s wid = Some p"
    and other: "wid \<noteq> WarningResult.warningId r"
  shows "pendingCommands s2 wid = Some p
       \<and> pendingCommands s2 (WarningResult.warningId r) \<noteq> None
       \<and> ptyWritten (WARNING_CONFIRM s2 wid) = ptyWritten s @ [pendingData p]"
  using alive earlier other
  by (simp add: s2 held_step [where Date_now = Date_now, OF alive esc c cand ev] WARNING_CONFIRM_def ShellManager_write_def)

text \<open>
  The cancelling of an earlier decision is the overlay's: \<^verbatim>\<open>show\<close> on a payload, while a
  warning is on display, first dismisses that warning as cancelled and calls
  \<open>cancelExecution\<close> with its identifier; with nothing on display it sends nothing. When
  the main process receives that cancel, the earlier entry goes and later entries stay.
\<close>

lemma overlay_show_cancels_displayed:
  "currentResolve ov \<Longrightarrow> currentWarningId ov = Some w \<Longrightarrow> w \<noteq> [] \<Longrightarrow>
   overlay_show ov p =
     ov\<lparr>currentWarningId := Some (WarningDisplayPayload.warningId p),
        apiCalls := apiCalls ov @ [cancelExecution w]\<rparr>"
  by (cases ov) (simp add: overlay_show_def dismissWithAction_def overlay_hide_def)

lemma overlay_show_idle:
  "\<not> currentResolve ov \<Longrightarrow>
   overlay_show ov p =
     ov\<lparr>currentResolve := True, currentWarningId := Some (WarningDisplayPayload.warningId p)\<rparr>"
  by (simp add: overlay_show_def)

lemma cancel_removes_only_its_entry:
  "pendingCommands (WARNING_CANCEL s wid) wid = None
   \<and> (wid' \<noteq> wid \<longrightarrow> pendingCommands (WARNING_CANCEL s wid) wid' = pendingCommands s wid')
   \<and> WARNING_CONFIRM (WARNING_CANCEL s wid) wid = WARNING_CANCEL s wid"
  by (simp add: WARNING_CONFIRM_def WARNING_CANCEL_def ShellManager_write_def split: option.splits)

lemma after_second_enter_eq:
  "after_second_enter =
     fresh_state
       \<lparr>lineBuffer := js ''mkfs'',
        pendingCommands :=
          [js ''warn-1707984000000'' \<mapsto>
             \<lparr>PendingCommand.warningId = js ''warn-1707984000000'', pendingData = [0x0D]\<rparr>,
           js ''warn-1707984000001'' \<mapsto>
             \<lparr>PendingCommand.warningId = js ''warn-1707984000001'', pendingData = [0x0D]\<rparr>],
        ptyWritten := [[0x6D], [0x6B], [0x66], [0x73]],
        warningTriggered := [display_payload (spec_result 1707984000000 (js ''mkfs'') mkfs_rule),
                             display_payload (spec_result 1707984000001 (js ''mkfs'') mkfs_rule)],
        dateNowCalls := 2\<rparr>"
  by (simp add: after_second_enter_def after_first_enter_def held_again ticking_clock_def
      warn_id_0 warn_id_1 mkfs_text)

lemma payload_ids:
  "WarningDisplayPayload.warningId (display_payload (spec_result 1707984000000 t r))
     = js ''warn-1707984000000''"
  "WarningDisplayPayload.warningId (display_payload (spec_result 1707984000001 t r))
     = js ''warn-1707984000001''"
  by (simp_all add: display_payload_def warn_id_0 warn_id_1)

lemma warn_id_not_empty: "js ''warn-1707984000000'' \<noteq> []"
  by (simp add: js_def)

text \<open>
  C4 fails on the code. The main process does not cancel the earlier decision when a
  second rule match occurs; it leaves that to the overlay. After Enter is pressed twice
  on \<^verbatim>\<open>mkfs\<close>, both identifiers are in the ledger, so two decisions are pending. If the
  first warning is dismissed with Execute Anyway before the second payload reaches the
  overlay, the overlay calls only \<open>confirmExecution\<close> with the first identifier, cancels
  nothing, and the main process forwards the carriage return withheld for the first
  decision.
\<close>

theorem earlier_decision_outlives_second_match:
  "pendingCommands after_second_enter (js ''warn-1707984000000'') \<noteq> None
   \<and> pendingCommands after_second_enter (js ''warn-1707984000001'') \<noteq> None
   \<and> apiCalls
        (overlay_show
           (dismissWithAction
              (overlay_show overlay_init (hd (warningTriggered after_second_enter))) confirm)
           (last (warningTriggered after_second_enter)))
       = [confirmExecution (js ''warn-1707984000000'')]
   \<and> ptyWritten after_second_enter = [[0x6D], [0x6B], [0x66], [0x73]]
   \<and> ptyWritten (main_receives after_second_enter (confirmExecution (js ''warn-1707984000000'')))
       = [[0x6D], [0x6B], [0x66], [0x73], [0x0D]]"
  by (simp add: after_second_enter_eq fresh_state_simps warn_ids_differ payload_ids
      warn_id_not_empty overlay_show_def dismissWithAction_def overlay_hide_def overlay_init_def
      main_receives_def WARNING_CONFIRM_def ShellManager_write_def)

text \<open>
  When instead the second payload reaches the overlay while the first warning is on
  display, the overlay calls \<open>cancelExecution\<close> with the first identifier; once the main
  process has received it, the first entry is gone, the second is still pending, and a
  \<open>confirm\<close> with the first identifier forwards nothing (the byte 0x15 is the cancel's).
\<close>

lemma overlay_cancels_earlier_decision:
  "apiCalls
     (overlay_show (overlay_show overlay_init (hd (warningTriggered after_second_enter)))
        (last (warningTriggered after_second_enter)))
     = [cancelExecution (js ''warn-1707984000000'')]
   \<and> pendingCommands
        (main_receives after_second_enter (cancelExecution (js ''warn-1707984000000'')))
        (js ''warn-1707984000000'') = None
   \<and> pendingCommands
        (main_receives after_second_enter (cancelExecution (js ''warn-1707984000000'')))
        (js ''warn-1707984000001'') \<noteq> None
   \<and> ptyWritten
        (main_receives
           (main_receives after_second_enter (cancelExecution (js ''warn-1707984000000'')))
           (confirmExecution (js ''warn-1707984000000'')))
       = [[0x6D], [0x6B], [0x66], [0x73], [0x15]]"
  by (simp add: after_second_enter_eq fresh_state_simps warn_ids_differ warn_ids_differ [symmetric]
      payload_ids warn_id_not_empty overlay_show_def dismissWithAction_def overlay_hide_def
      overlay_init_def main_receives_def WARNING_CONFIRM_def WARNING_CANCEL_def
      ShellManager_write_def)

subsection \<open>When the line buffer is cleared\<close>

text \<open>
  C5, as the code has it. For a terminator with a non-empty candidate, outside an escape
  sequence: on no match the line buffer is cleared at once; on a match the line buffer is
  left as it is while the decision is pending, and it is cleared by the \<open>confirm\<close> or the
  \<open>cancel\<close> of that decision.
\<close>

theorem buffer_cleared_on_resolution:
  assumes alive: "ptyProcess s" and esc: "\<not> inEscapeSequence s"
    and c: "c = 0x0D \<or> c = 0x0A"
    and cand: "js_trim (lineBuffer s) \<noteq> []"
    and s2: "s2 = SHELL_WRITE eng Date_now s [c]"
  shows "(evaluate eng (Date_now (dateNowCalls s)) (js_trim (lineBuffer s)) = None \<longrightarrow>
            lineBuffer s2 = [])
       \<and> (\<forall>r. evaluate eng (Date_now (dateNowCalls s)) (js_trim (lineBuffer s)) = Some r \<longrightarrow>
            lineBuffer s2 = lineBuffer s
          \<and> pendingCommands s2 (WarningResult.warningId r) \<noteq> None
          \<and> lineBuffer (WARNING_CONFIRM s2 (WarningResult.warningId r)) = []
          \<and> lineBuffer (WARNING_CANCEL s2 (WarningResult.warningId r)) = [])"
  using alive esc c cand
  by (auto simp: s2 SHELL_WRITE_single handle_char_terminator WARNING_CONFIRM_def
      WARNING_CANCEL_def ShellManager_write_def)

text \<open>The runs \<^verbatim>\<open>ls\<close>, CR and \<^verbatim>\<open>mkfs\<close>, CR.\<close>

theorem buffer_cleared_on_resolution_witness:
  "ptyProcess (SHELL_WRITE example_engine frozen_clock fresh_state (js ''ls''))
   \<and> js_trim (lineBuffer (SHELL_WRITE example_engine frozen_clock fresh_state (js ''ls''))) \<noteq> []
   \<and> evaluate example_engine 1707984000000 (js ''ls'') = None
   \<and> lineBuffer
        (SHELL_WRITE example_engine frozen_clock
           (SHELL_WRITE example_engine frozen_clock fresh_state (js ''ls'')) [0x0D]) = []
   \<and> evaluate example_engine 1707984000000 (js ''mkfs'')
       = Some (spec_result 1707984000000 (js ''mkfs'') mkfs_rule)
   \<and> lineBuffer
        (SHELL_WRITE example_engine frozen_clock
           (SHELL_WRITE example_engine frozen_clock fresh_state (js ''mkfs'')) [0x0D])
       = js ''mkfs''
   \<and> lineBuffer
        (WARNING_CONFIRM
           (SHELL_WRITE example_engine frozen_clock
              (SHELL_WRITE example_engine frozen_clock fresh_state (js ''mkfs'')) [0x0D])
           (js ''warn-1707984000000'')) = []
   \<and> lineBuffer
        (WARNING_CANCEL
           (SHELL_WRITE example_engine frozen_clock
              (SHELL_WRITE example_engine frozen_clock fresh_state (js ''mkfs'')) [0x0D])
           (js ''warn-1707984000000'')) = []"
  using
    buffer_cleared_on_resolution
      [of "SHELL_WRITE example_engine frozen_clock fresh_state (js ''ls'')" "0x0D" _
          example_engine frozen_clock, OF _ _ _ _ refl]
    buffer_cleared_on_resolution
      [of "SHELL_WRITE example_engine frozen_clock fresh_state (js ''mkfs'')" "0x0D" _
          example_engine frozen_clock, OF _ _ _ _ refl]
  by (simp add: typed_mkfs typed_ls fresh_state_simps frozen_clock_def warn_id_0 trim_mkfs trim_ls
      evaluate_mkfs evaluate_ls mkfs_not_empty)
     (simp add: js_def)

text \<open>
  C5 as stated fails on a match: after \<^verbatim>\<open>mkfs\<close> and CR the decision is pending and the
  line buffer still holds \<^verbatim>\<open>mkfs\<close>.
\<close>

theorem buffer_kept_while_pending:
  "lineBuffer (SHELL_WRITE example_engine frozen_clock fresh_state (js ''mkfs'' @ [0x0D]))
     = js ''mkfs''
   \<and> js ''mkfs'' \<noteq> []
   \<and> pendingCommands
        (SHELL_WRITE example_engine frozen_clock fresh_state (js ''mkfs'' @ [0x0D]))
        (js ''warn-1707984000000'') \<noteq> None"
  by (simp add: trace_simps)

subsection \<open>Escape sequences\<close>

text \<open>
  While the shell is alive, one call of the handler runs the loop over the characters
  of its data, and successive calls run it over the characters of all their data in
  order; so the stream of characters is what the loop sees, however it is cut into calls.
\<close>

lemma SHELL_WRITE_twice:
  "ptyProcess s \<Longrightarrow>
   SHELL_WRITE e n (SHELL_WRITE e n s data) data'
     = write_loop e n s (string_iterator data @ string_iterator data')"
  by (simp add: SHELL_WRITE_alive write_loop_append)

text \<open>
  C8. Anywhere in the stream of characters, after any characters \<open>pre\<close> that leave the
  state \<open>s1\<close>, let ESC be followed by characters \<open>body\<close> without an ASCII letter or tilde
  and then by a character \<open>t\<close> with one. While the shell is alive, after ESC and any
  number of characters of \<open>body\<close> the state is \<open>s1\<close> in escape mode with exactly those
  characters forwarded, each as its own write; after \<open>t\<close> it is \<open>s1\<close> out of escape mode
  with the whole sequence forwarded. In particular the line buffer and the ledger are
  those of \<open>s1\<close> throughout.
\<close>

theorem escape_sequence_passes_through:
  assumes alive: "ptyProcess s"
    and body: "\<forall>ch \<in> set body. \<not> list_ex is_letter_or_tilde ch"
    and t: "list_ex is_letter_or_tilde t"
    and s1: "s1 = write_loop eng Date_now s pre"
  shows "(\<forall>k \<le> length body.
            write_loop eng Date_now s (pre @ [0x1B] # take k body) =
              s1\<lparr>inEscapeSequence := True, ptyWritten := ptyWritten s1 @ [0x1B] # take k body\<rparr>)
       \<and> write_loop eng Date_now s (pre @ [0x1B] # body @ [t]) =
              s1\<lparr>inEscapeSequence := False, ptyWritten := ptyWritten s1 @ [0x1B] # body @ [t]\<rparr>
       \<and> SHELL_WRITE eng Date_now s data = write_loop eng Date_now s (string_iterator data)
       \<and> SHELL_WRITE eng Date_now (SHELL_WRITE eng Date_now s data) data'
            = write_loop eng Date_now s (string_iterator data @ string_iterator data')"
proof (intro conjI allI impI)
  have a1: "ptyProcess s1" using alive s1 by simp
  fix k
  have "\<forall>ch \<in> set (take k body). \<not> list_ex is_letter_or_tilde ch"
    using body by (auto dest: in_set_takeD)
  with a1 show "write_loop eng Date_now s (pre @ [0x1B] # take k body) =
      s1\<lparr>inEscapeSequence := True, ptyWritten := ptyWritten s1 @ [0x1B] # take k body\<rparr>"
    by (simp add: write_loop_append s1 [symmetric] write_loop_escape_prefix del: write_loop_Cons)
next
  have a1: "ptyProcess s1" using alive s1 by simp
  let ?s2 = "s1\<lparr>inEscapeSequence := True, ptyWritten := ptyWritten s1 @ [0x1B] # body\<rparr>"
  have "write_loop eng Date_now s (pre @ [0x1B] # body @ [t])
      = write_loop eng Date_now (write_loop eng Date_now s1 ([0x1B] # body)) [t]"
    by (simp add: s1 write_loop_def)
  also have "write_loop eng Date_now s1 ([0x1B] # body) = ?s2"
    using a1 body by (rule write_loop_escape_prefix)
  also have "write_loop eng Date_now ?s2 [t] = handle_char eng Date_now ?s2 t"
    by simp
  also have "\<dots> = ?s2\<lparr>inEscapeSequence := False, ptyWritten := ptyWritten ?s2 @ [t]\<rparr>"
    using a1 t by (intro handle_char_escape_end) simp_all
  finally show "write_loop eng Date_now s (pre @ [0x1B] # body @ [t]) =
      s1\<lparr>inEscapeSequence := False, ptyWritten := ptyWritten s1 @ [0x1B] # body @ [t]\<rparr>"
    by simp
next
  show "SHELL_WRITE eng Date_now s data = write_loop eng Date_now s (string_iterator data)"
    using alive by (rule SHELL_WRITE_alive)
next
  show "SHELL_WRITE eng Date_now (SHELL_WRITE eng Date_now s data) data'
            = write_loop eng Date_now s (string_iterator data @ string_iterator data')"
    using alive by (rule SHELL_WRITE_twice)
qed

text \<open>
  The run \<^verbatim>\<open>ls\<close> followed by the cursor-up sequence ESC \<^verbatim>\<open>[\<close> \<^verbatim>\<open>A\<close>, the sequence cut
  after ESC into two calls of the handler.
\<close>

theorem escape_sequence_passes_through_witness:
  "ptyProcess fresh_state
   \<and> \<not> list_ex is_letter_or_tilde [0x5B]
   \<and> list_ex is_letter_or_tilde [0x41]
   \<and> string_iterator (js ''ls'' @ [0x1B]) @ string_iterator [0x5B, 0x41]
       = [[0x6C], [0x73]] @ [0x1B] # [[0x5B]] @ [[0x41]]
   \<and> SHELL_WRITE example_engine frozen_clock fresh_state (js ''ls'' @ [0x1B])
       = fresh_state\<lparr>lineBuffer := js ''ls'', inEscapeSequence := True,
                      ptyWritten := [[0x6C], [0x73], [0x1B]]\<rparr>
   \<and> SHELL_WRITE example_engine frozen_clock
        (SHELL_WRITE example_engine frozen_clock fresh_state (js ''ls'' @ [0x1B])) [0x5B, 0x41]
       = fresh_state\<lparr>lineBuffer := js ''ls'', inEscapeSequence := False,
                      ptyWritten := [[0x6C], [0x73], [0x1B], [0x5B], [0x41]]\<rparr>"
proof -
  have it1: "string_iterator (js ''ls'' @ [0x1B]) = [[0x6C], [0x73]] @ [0x1B] # take 0 [[0x5B]]"
    by (simp add: js_def is_high_surrogate_def)
  have it2: "string_iterator (js ''ls'' @ [0x1B]) @ string_iterator [0x5B, 0x41]
      = [[0x6C], [0x73]] @ [0x1B] # [[0x5B]] @ [[0x41]]"
    by (simp add: js_def is_high_surrogate_def)
  have pre: "write_loop example_engine frozen_clock fresh_state [[0x6C], [0x73]]
      = fresh_state\<lparr>lineBuffer := js ''ls'', ptyWritten := [[0x6C], [0x73]]\<rparr>"
    using write_loop_plain [of "js ''ls''" fresh_state example_engine frozen_clock]
    by (simp add: fresh_state_simps js_def is_plain_def is_high_surrogate_def
        is_low_surrogate_def MAX_LINE_BUFFER_LENGTH_def)
  have body: "\<forall>ch \<in> set [[0x5B]]. \<not> list_ex is_letter_or_tilde (ch :: jsstring)"
    by (simp add: is_letter_or_tilde_def)
  have t: "list_ex is_letter_or_tilde [0x41]"
    by (simp add: is_letter_or_tilde_def)
  have alive: "ptyProcess fresh_state"
    by (simp add: fresh_state_simps)
  note inst = escape_sequence_passes_through
      [of fresh_state "[[0x5B]]" "[0x41]"
          "write_loop example_engine frozen_clock fresh_state [[0x6C], [0x73]]"
          example_engine frozen_clock "[[0x6C], [0x73]]", OF alive body t refl]
  have one: "SHELL_WRITE example_engine frozen_clock fresh_state (js ''ls'' @ [0x1B])
       = fresh_state\<lparr>lineBuffer := js ''ls'', inEscapeSequence := True,
                      ptyWritten := [[0x6C], [0x73], [0x1B]]\<rparr>"
    using inst [of "js ''ls'' @ [0x1B]", THEN conjunct1, rule_format, of 0]
      inst [of "js ''ls'' @ [0x1B]", THEN conjunct2, THEN conjunct2, THEN conjunct1]
    by (simp only: it1) (simp add: pre fresh_state_simps del: write_loop_Cons write_loop_Nil)
  have two: "SHELL_WRITE example_engine frozen_clock
        (SHELL_WRITE example_engine frozen_clock fresh_state (js ''ls'' @ [0x1B])) [0x5B, 0x41]
       = fresh_state\<lparr>lineBuffer := js ''ls'', inEscapeSequence := False,
                      ptyWritten := [[0x6C], [0x73], [0x1B], [0x5B], [0x41]]\<rparr>"
    using inst [of "js ''ls'' @ [0x1B]" "[0x5B, 0x41]", THEN conjunct2, THEN conjunct1]
      inst [of "js ''ls'' @ [0x1B]" "[0x5B, 0x41]", THEN conjunct2, THEN conjunct2, THEN conjunct2]
    by (simp only: it2) (simp add: pre fresh_state_simps del: write_loop_Cons write_loop_Nil)
  from one two it2 body t alive show ?thesis by simp
qed

subsection \<open>The capacity of the line buffer\<close>

text \<open>
  What holds of the cap: the length of the line buffer never exceeds the cap by more
  than one code unit, and at or above the cap an ordinary character is forwarded but not
  stored.
\<close>

lemma lineBuffer_handle_char_bound:
  "length ch \<le> 2 \<Longrightarrow> length (lineBuffer s) \<le> Suc MAX_LINE_BUFFER_LENGTH \<Longrightarrow>
   length (lineBuffer (handle_char e n s ch)) \<le> Suc MAX_LINE_BUFFER_LENGTH"
  by (auto simp: handle_char_def ShellManager_write_def Let_def split: option.splits)

lemma lineBuffer_write_loop_bound:
  "\<forall>ch \<in> set chs. length ch \<le> 2 \<Longrightarrow> length (lineBuffer s) \<le> Suc MAX_LINE_BUFFER_LENGTH \<Longrightarrow>
   length (lineBuffer (write_loop e n s chs)) \<le> Suc MAX_LINE_BUFFER_LENGTH"
proof (induction chs arbitrary: s)
  case Nil
  then show ?case by simp
next
  case (Cons ch chs)
  from Cons.prems have "length (lineBuffer (handle_char e n s ch)) \<le> Suc MAX_LINE_BUFFER_LENGTH"
    by (intro lineBuffer_handle_char_bound) simp_all
  with Cons.prems show ?case
    by (simp add: Cons.IH)
qed

lemma lineBuffer_SHELL_WRITE_bound:
  "length (lineBuffer s) \<le> Suc MAX_LINE_BUFFER_LENGTH \<Longrightarrow>
   length (lineBuffer (SHELL_WRITE e n s data)) \<le> Suc MAX_LINE_BUFFER_LENGTH"
  unfolding SHELL_WRITE_def
  by (auto intro!: lineBuffer_write_loop_bound dest: length_string_iterator)

lemma lineBuffer_at_cap_dropped:
  "is_plain c \<Longrightarrow> \<not> inEscapeSequence s \<Longrightarrow> ptyProcess s \<Longrightarrow>
   MAX_LINE_BUFFER_LENGTH \<le> length (lineBuffer s) \<Longrightarrow>
   handle_char e n s [c] = s\<lparr>ptyWritten := ptyWritten s @ [[c]]\<rparr>"
  by (simp add: handle_char_plain ShellManager_write_def)

lemma surrogate_pair_below_cap:
  assumes n: "n < MAX_LINE_BUFFER_LENGTH"
  shows "lineBuffer (SHELL_WRITE e clk fresh_state (replicate n 0x61 @ [0xD83D, 0xDE00]))
           = replicate n 0x61 @ [0xD83D, 0xDE00]"
proof -
  let ?a = "replicate n (0x61 :: 16 word)"
  let ?s1 = "fresh_state\<lparr>lineBuffer := lineBuffer fresh_state @ ?a,
                          ptyWritten := ptyWritten fresh_state @ map (\<lambda>c. [c]) ?a\<rparr>"
  have plain: "list_all is_plain ?a"
    by (simp add: list_all_iff is_plain_def is_high_surrogate_def is_low_surrogate_def)
  have it: "string_iterator (?a @ [0xD83D, 0xDE00]) = map (\<lambda>c. [c]) ?a @ [[0xD83D, 0xDE00]]"
    using plain by (simp add: string_iterator_plain_append is_high_surrogate_def is_low_surrogate_def)
  have "write_loop e clk fresh_state (map (\<lambda>c. [c]) ?a) = ?s1"
    using plain n by (intro write_loop_plain) (simp_all add: fresh_state_simps)
  then have "SHELL_WRITE e clk fresh_state (?a @ [0xD83D, 0xDE00])
      = handle_char e clk ?s1 [0xD83D, 0xDE00]"
    by (simp add: SHELL_WRITE_alive fresh_state_simps it write_loop_append)
  also have "\<dots> = ?s1\<lparr>lineBuffer := lineBuffer ?s1 @ [0xD83D, 0xDE00],
                          ptyWritten := ptyWritten ?s1 @ [[0xD83D, 0xDE00]]\<rparr>"
    using n by (intro handle_char_surrogate_pair)
       (simp_all add: fresh_state_simps is_high_surrogate_def is_low_surrogate_def)
  finally show ?thesis
    by (simp add: fresh_state_simps)
qed

text \<open>
  C9 fails on the code: the test \<^verbatim>\<open>lineBuffer.length < MAX_LINE_BUFFER_LENGTH\<close> precedes
  the append of a \<^verbatim>\<open>char\<close> that the string iterator may have made two code units long.
  After 65535 times the letter a and one character outside the basic plane (here U+1F600,
  the pair D83D DE00) the line buffer has 65537 code units.
\<close>

theorem line_buffer_exceeds_cap:
  "length (lineBuffer (SHELL_WRITE example_engine frozen_clock fresh_state
                        (replicate 65535 0x61 @ [0xD83D, 0xDE00]))) = 65537
   \<and> MAX_LINE_BUFFER_LENGTH = 65536"
  by (simp add: surrogate_pair_below_cap MAX_LINE_BUFFER_LENGTH_def)

subsection \<open>Decision identifiers\<close>

text \<open>What holds: detections at different clock readings get different identifiers.\<close>

lemma decimal_value_snoc: "decimal_value (ds @ [d]) = 10 * decimal_value ds + (unat d - 48)"
  by (induction ds) (simp_all add: algebra_simps)

lemma unat_digit: "k < 10 \<Longrightarrow> unat (48 + of_nat k :: 16 word) = 48 + k"
proof -
  assume "k < 10"
  then have "unat (of_nat (48 + k) :: 16 word) = 48 + k"
    by (simp only: unat_of_nat) simp
  then show ?thesis by simp
qed

lemma decimal_value_js_of_nat: "decimal_value (js_of_nat n) = n"
proof (induction n rule: js_of_nat.induct)
  case (1 n)
  show ?case
  proof (cases "n < 10")
    case True
    then show ?thesis by (subst js_of_nat.simps) (simp add: unat_digit)
  next
    case False
    with "1" have "decimal_value (js_of_nat (n div 10)) = n div 10" by simp
    with False show ?thesis
      by (subst js_of_nat.simps) (simp add: decimal_value_snoc unat_digit)
  qed
qed

lemma distinct_reads_distinct_identifiers:
  "now \<noteq> now' \<Longrightarrow> js ''warn-'' @ js_of_nat now \<noteq> js ''warn-'' @ js_of_nat now'"
  by (metis decimal_value_js_of_nat same_append_eq)

text \<open>
  C10 fails on the code: the identifier is \<^verbatim>\<open>'warn-' + Date.now()\<close>, so two detections in
  the same millisecond get the same identifier. On the pasted line \<^verbatim>\<open>mkfs\<close> CR LF with
  both clock reads equal, two warnings are sent under one identifier, the second ledger
  entry replaces the first, and one \<open>confirm\<close> empties the ledger.
\<close>

theorem same_millisecond_same_identifier:
  "map WarningDisplayPayload.warningId
     (warningTriggered
        (SHELL_WRITE example_engine frozen_clock fresh_state (js ''mkfs'' @ [0x0D, 0x0A])))
     = [js ''warn-1707984000000'', js ''warn-1707984000000'']
   \<and> dateNowCalls
        (SHELL_WRITE example_engine frozen_clock fresh_state (js ''mkfs'' @ [0x0D, 0x0A])) = 2
   \<and> pendingCommands
        (WARNING_CONFIRM
           (SHELL_WRITE example_engine frozen_clock fresh_state (js ''mkfs'' @ [0x0D, 0x0A]))
           (js ''warn-1707984000000''))
        (js ''warn-1707984000000'') = None
   \<and> ptyWritten
        (WARNING_CONFIRM
           (SHELL_WRITE example_engine frozen_clock fresh_state (js ''mkfs'' @ [0x0D, 0x0A]))
           (js ''warn-1707984000000''))
     = [[0x6D], [0x6B], [0x66], [0x73], [0x0D]]"
  by (simp add: trace_simps WARNING_CONFIRM_def ShellManager_write_def display_payload_def)

end
